theory Spec2Isabelle
  imports Main
begin

section \<open>The JavaScript platform\<close>

text \<open>
  Umbra is browser-side JavaScript. The functions below are the parts of the platform that
  the classification and logging code calls. Strings are \<open>string\<close>; the URLs, host names
  and type tags that the code inspects are ASCII.
\<close>

subsection \<open>String methods\<close>

definition lower_char :: "char \<Rightarrow> char" where
  "lower_char c =
     (if 65 \<le> (of_char c :: nat) \<and> (of_char c :: nat) \<le> 90
      then char_of ((of_char c :: nat) + 32) else c)"

definition toLowerCase :: "string \<Rightarrow> string" where
  "toLowerCase s = map lower_char s"

fun startsWith :: "string \<Rightarrow> string \<Rightarrow> bool" where
  "startsWith s [] = True"
| "startsWith [] (p # ps) = False"
| "startsWith (c # cs) (p # ps) = (c = p \<and> startsWith cs ps)"

definition endsWith :: "string \<Rightarrow> string \<Rightarrow> bool" where
  "endsWith s t = (length t \<le> length s \<and> drop (length s - length t) s = t)"

fun includes_str :: "string \<Rightarrow> string \<Rightarrow> bool" where
  "includes_str [] t = (t = [])"
| "includes_str (c # cs) t = (startsWith (c # cs) t \<or> includes_str cs t)"

text \<open>\<open>s.split(c)\<close> for a one-character separator: the empty string gives one empty piece.\<close>

fun split :: "char \<Rightarrow> string \<Rightarrow> string list" where
  "split c [] = [[]]"
| "split c (x # xs) =
     (if x = c then [] # split c xs
      else (case split c xs of [] \<Rightarrow> [[x]] | y # ys \<Rightarrow> (x # y) # ys))"

text \<open>\<open>s.replace(/a/g, 'b')\<close> for single characters \<open>a\<close> and \<open>b\<close>.\<close>

definition replace_g :: "char \<Rightarrow> char \<Rightarrow> string \<Rightarrow> string" where
  "replace_g a b s = map (\<lambda>c. if c = a then b else c) s"

text \<open>\<open>s.replace(p, r)\<close> for a string pattern \<open>p\<close>: only the first occurrence is replaced.\<close>

fun replace_first :: "string \<Rightarrow> string \<Rightarrow> string \<Rightarrow> string" where
  "replace_first p r [] = (if p = [] then r else [])"
| "replace_first p r (c # cs) =
     (if startsWith (c # cs) p then r @ drop (length p) (c # cs)
      else c # replace_first p r cs)"

subsection \<open>Regular expressions\<close>

text \<open>
  The syntax of the regular expression literals that occur in the rules. \<open>Dot\<close> is \<open>.\<close>
  (any character but a line terminator), \<open>Cls\<close> a character class given by its members,
  \<open>Eol\<close> the assertion \<open>$\<close> (no \<open>m\<close> flag is used, so it holds at the end of the input only).
\<close>

datatype rx =
    Nul
  | Eps
  | Chr char
  | Dot
  | Cls "char list"
  | Seq rx rx
  | Alt rx rx
  | Star rx
  | Eol

fun Str :: "string \<Rightarrow> rx" where
  "Str [] = Eps"
| "Str [c] = Chr c"
| "Str (c # cs) = Seq (Chr c) (Str cs)"

definition Plus :: "rx \<Rightarrow> rx" where
  "Plus r = Seq r (Star r)"

definition Opt :: "rx \<Rightarrow> rx" where
  "Opt r = Alt r Eps"

fun Alts :: "rx list \<Rightarrow> rx" where
  "Alts [] = Nul"
| "Alts [r] = r"
| "Alts (r # rs) = Alt r (Alts rs)"

fun Seqs :: "rx list \<Rightarrow> rx" where
  "Seqs [] = Eps"
| "Seqs [r] = r"
| "Seqs (r # rs) = Seq r (Seqs rs)"

text \<open>\<open>r{n}\<close> is \<open>Rep n r\<close>, and \<open>r{0,n}\<close> is \<open>Upto n r\<close>.\<close>

fun Rep :: "nat \<Rightarrow> rx \<Rightarrow> rx" where
  "Rep 0 r = Eps"
| "Rep (Suc n) r = Seq r (Rep n r)"

fun Upto :: "nat \<Rightarrow> rx \<Rightarrow> rx" where
  "Upto 0 r = Eps"
| "Upto (Suc n) r = Opt (Seq r (Upto n r))"

definition digit :: rx where
  "digit = Cls ''0123456789''"

text \<open>
  Matching by derivatives. \<open>nullable e r\<close>: \<open>r\<close> matches the empty string at the current
  position, where \<open>e\<close> says whether that position is the end of the input.
\<close>

fun nullable :: "bool \<Rightarrow> rx \<Rightarrow> bool" where
  "nullable e Nul = False"
| "nullable e Eps = True"
| "nullable e (Chr c) = False"
| "nullable e Dot = False"
| "nullable e (Cls cs) = False"
| "nullable e (Seq r s) = (nullable e r \<and> nullable e s)"
| "nullable e (Alt r s) = (nullable e r \<or> nullable e s)"
| "nullable e (Star r) = True"
| "nullable e Eol = e"

fun deriv :: "char \<Rightarrow> rx \<Rightarrow> rx" where
  "deriv a Nul = Nul"
| "deriv a Eps = Nul"
| "deriv a (Chr c) = (if a = c then Eps else Nul)"
| "deriv a Dot = (if a = CHR 0x0A \<or> a = CHR 0x0D then Nul else Eps)"
| "deriv a (Cls cs) = (if a \<in> set cs then Eps else Nul)"
| "deriv a (Seq r s) =
     (if nullable False r then Alt (Seq (deriv a r) s) (deriv a s) else Seq (deriv a r) s)"
| "deriv a (Alt r s) = Alt (deriv a r) (deriv a s)"
| "deriv a (Star r) = Seq (deriv a r) (Star r)"
| "deriv a Eol = Nul"

text \<open>\<open>matches_at r s\<close>: \<open>r\<close> matches a prefix of \<open>s\<close>.\<close>

fun matches_at :: "rx \<Rightarrow> string \<Rightarrow> bool" where
  "matches_at r [] = nullable True r"
| "matches_at r (c # cs) = (nullable False r \<or> matches_at (deriv c r) cs)"

text \<open>\<open>search r s\<close>: \<open>r\<close> matches somewhere in \<open>s\<close>.\<close>

fun search :: "rx \<Rightarrow> string \<Rightarrow> bool" where
  "search r [] = matches_at r []"
| "search r (c # cs) = (matches_at r (c # cs) \<or> search r cs)"

fun lower_rx :: "rx \<Rightarrow> rx" where
  "lower_rx (Chr c) = Chr (lower_char c)"
| "lower_rx (Cls cs) = Cls (map lower_char cs)"
| "lower_rx (Seq r s) = Seq (lower_rx r) (lower_rx s)"
| "lower_rx (Alt r s) = Alt (lower_rx r) (lower_rx s)"
| "lower_rx (Star r) = Star (lower_rx r)"
| "lower_rx r = r"

text \<open>
  A \<open>RegExp\<close> object without the flags \<open>g\<close> and \<open>y\<close>: its source and the flag \<open>i\<close>.
  For such an object \<open>test\<close> neither reads nor writes \<open>lastIndex\<close>. Every regular
  expression that the repository puts into a rule or a filter is of this kind; the one
  literal with the flag \<open>g\<close> (in \<open>checkUrlStructure\<close>) is created afresh on each evaluation,
  so its \<open>lastIndex\<close> is 0 when \<open>test\<close> is called. Objects with the flags \<open>g\<close> and \<open>y\<close>,
  which \<open>addSecurityRule\<close> accepts, are modelled further down.
\<close>

record RegExp =
  source :: rx
  ignoreCase :: bool

definition test :: "RegExp \<Rightarrow> string \<Rightarrow> bool" where
  "test re s =
     (if ignoreCase re then search (lower_rx (source re)) (toLowerCase s)
      else search (source re) s)"

definition rx_i :: "rx \<Rightarrow> RegExp" where
  "rx_i r = \<lparr>source = r, ignoreCase = True\<rparr>"

definition rx_plain :: "rx \<Rightarrow> RegExp" where
  "rx_plain r = \<lparr>source = r, ignoreCase = False\<rparr>"

subsection \<open>URL objects and the host environment\<close>

text \<open>The two properties of a \<open>URL\<close> object that the code reads.\<close>

record URL =
  hostname :: string
  href :: string

datatype js_error = TypeError | URIError | SyntaxError

text \<open>
  The constructors and functions of the platform that may throw: \<open>new URL(s)\<close> (a
  \<open>TypeError\<close> on an invalid URL), \<open>decodeURIComponent(s)\<close> (a \<open>URIError\<close> on a malformed
  escape sequence) and \<open>new RegExp(p, 'i')\<close> (a \<open>SyntaxError\<close> on an invalid pattern).
  \<open>None\<close> stands for the exception; \<open>encodeURIComponent\<close> is taken as total. The code
  is verified for every such platform.
\<close>

record platform =
  new_URL :: "string \<Rightarrow> URL option"
  decodeURIComponent :: "string \<Rightarrow> string option"
  new_RegExp_i :: "string \<Rightarrow> RegExp option"
  encodeURIComponent :: "string \<Rightarrow> string"

section \<open>The security manager (\<open>SecurityManager\<close>, js/features)\<close>

text \<open>
  The message literals of the source are Japanese; a \<open>description\<close> holds an English
  rendering of the literal, one rendering per literal. A threat object has the properties
  \<open>domain\<close> (entries of the threat database), \<open>pattern\<close> (rules), \<open>type\<close> and
  \<open>description\<close>; an absent property is \<open>None\<close>.
\<close>

record threat =
  domain :: "string option"
  pattern :: "RegExp option"
  type :: string
  description :: string

definition domain_threat :: "string \<Rightarrow> string \<Rightarrow> string \<Rightarrow> threat" where
  "domain_threat d t descr = \<lparr>domain = Some d, pattern = None, type = t, description = descr\<rparr>"

definition pattern_threat :: "RegExp \<Rightarrow> string \<Rightarrow> string \<Rightarrow> threat" where
  "pattern_threat p t descr = \<lparr>domain = None, pattern = Some p, type = t, description = descr\<rparr>"

definition plain_threat :: "string \<Rightarrow> string \<Rightarrow> threat" where
  "plain_threat t descr = \<lparr>domain = None, pattern = None, type = t, description = descr\<rparr>"

record scan_log =
  timestamp :: string
  url :: string
  logged_threat :: threat
  blocked :: bool

record security_manager =
  isEnabled :: bool
  threatDatabase :: "string \<rightharpoonup> threat"
  blockedSites :: "string list"
  securityRules :: "threat list"
  scanResults :: "string \<rightharpoonup> scan_log"

definition alnum :: rx where
  "alnum = Cls ''abcdefghijklmnopqrstuvwxyzABCDEFGHIJKLMNOPQRSTUVWXYZ0123456789''"

text \<open>\<open>[0-9]{1,3}\<close>\<close>

definition digits_1_3 :: rx where
  "digits_1_3 = Seq digit (Upto 2 digit)"

definition knownThreats :: "threat list" where
  "knownThreats =
    [domain_threat ''secure-paypal-verification.com'' ''phishing'' ''PayPal phishing site'',
     domain_threat ''amazon-security-alert.net'' ''phishing'' ''Amazon phishing site'',
     domain_threat ''gmail-security-check.org'' ''phishing'' ''Gmail phishing site'',
     domain_threat ''free-software-download.exe'' ''malware'' ''malware distribution site'',
     domain_threat ''virus-scanner-pro.com'' ''malware'' ''fake antivirus software'',
     pattern_threat (rx_plain (Seqs [Str ''bit.ly/'', Rep 6 alnum, Star alnum]))
       ''suspicious'' ''suspicious link through a shortened URL'',
     pattern_threat
       (rx_plain (Seqs [digits_1_3, Chr CHR ''.'', digits_1_3, Chr CHR ''.'',
                        digits_1_3, Chr CHR ''.'', digits_1_3]))
       ''suspicious'' ''direct access to an IP address'',
     pattern_threat (rx_i (Seqs [Str ''bitcoin'', Star Dot, Str ''giveaway'']))
       ''scam'' ''cryptocurrency scam site'',
     pattern_threat (rx_i (Seqs [Str ''elon'', Star Dot, Str ''musk'', Star Dot, Str ''crypto'']))
       ''scam'' ''celebrity impersonation scam'']"

text \<open>\<open>if (threat.domain) ... else if (threat.pattern) ...\<close>: an empty string is falsy.\<close>

definition loadSecurityDatabase_each :: "security_manager \<Rightarrow> threat \<Rightarrow> security_manager" where
  "loadSecurityDatabase_each sm t =
     (case domain t of
        Some (c # cs) \<Rightarrow> sm\<lparr>threatDatabase := (threatDatabase sm)(c # cs \<mapsto> t)\<rparr>
      | _ \<Rightarrow>
          (case pattern t of
             Some p \<Rightarrow> sm\<lparr>securityRules := securityRules sm @ [t]\<rparr>
           | None \<Rightarrow> sm))"

definition loadSecurityDatabase :: "security_manager \<Rightarrow> security_manager" where
  "loadSecurityDatabase sm = foldl loadSecurityDatabase_each sm knownThreats"

definition setupSecurityRules :: "security_manager \<Rightarrow> security_manager" where
  "setupSecurityRules sm = sm\<lparr>securityRules := securityRules sm @
     [pattern_threat
        (rx_i (Seqs [Chr CHR ''.'',
                     Alts (map Str [''exe'', ''scr'', ''pif'', ''bat'', ''cmd'', ''com'', ''vbs'', ''jar'']),
                     Eol]))
        ''malware'' ''download of an executable file'',
      pattern_threat
        (rx_i (Seqs [Cls ''?&'', Alts (map Str [''download'', ''exec'', ''cmd'', ''shell'']),
                     Chr CHR ''='']))
        ''malware'' ''URL with a dangerous parameter'',
      pattern_threat (rx_i (Seqs [Str ''redirect'', Star Dot, Str ''redirect'']))
        ''suspicious'' ''possible multiple redirects'']\<rparr>"

text \<open>The constructor followed by \<open>init\<close> (the listener it registers is part of the browser).\<close>

definition SecurityManager_new :: security_manager where
  "SecurityManager_new =
     setupSecurityRules (loadSecurityDatabase
       \<lparr>isEnabled = True, threatDatabase = Map.empty, blockedSites = [],
        securityRules = [], scanResults = Map.empty\<rparr>)"

definition legitimateDomains :: "string list" where
  "legitimateDomains =
     [''google.com'', ''facebook.com'', ''amazon.com'', ''paypal.com'',
      ''microsoft.com'', ''apple.com'', ''github.com'', ''youtube.com'']"

definition spoofingPatterns :: "string \<Rightarrow> string \<Rightarrow> string list" where
  "spoofingPatterns host legit =
     [replace_g CHR ''o'' CHR ''0'' host,
      replace_g CHR ''i'' CHR ''1'' host,
      replace_g CHR ''l'' CHR ''1'' host,
      replace_g CHR ''e'' CHR ''3'' host,
      replace_first ''.'' ''-'' legit @ ''.com'',
      replace_first ''.com'' ''.net'' legit,
      replace_first ''.com'' ''.org'' legit]"

text \<open>The loop of \<open>checkDomainSpoofing\<close> over the legitimate domains still to be visited.\<close>

fun checkDomainSpoofing_from :: "string list \<Rightarrow> string \<Rightarrow> threat option" where
  "checkDomainSpoofing_from [] host = None"
| "checkDomainSpoofing_from (legit # rest) host =
     (if host \<in> set (spoofingPatterns host legit) \<and> host \<noteq> legit
      then Some (plain_threat ''spoofing'' (legit @ '' domain spoofing''))
      else checkDomainSpoofing_from rest host)"

definition checkDomainSpoofing :: "string \<Rightarrow> threat option" where
  "checkDomainSpoofing host = checkDomainSpoofing_from legitimateDomains host"

definition suspiciousTlds :: "string list" where
  "suspiciousTlds = [''.tk'', ''.ml'', ''.ga'', ''.cf'', ''.click'', ''.download'', ''.work'']"

fun checkSuspiciousTLD_from :: "string list \<Rightarrow> string \<Rightarrow> threat option" where
  "checkSuspiciousTLD_from [] host = None"
| "checkSuspiciousTLD_from (tld # rest) host =
     (if endsWith host tld
      then Some (plain_threat ''suspicious'' ''suspicious top-level domain'')
      else checkSuspiciousTLD_from rest host)"

definition checkSuspiciousTLD :: "string \<Rightarrow> threat option" where
  "checkSuspiciousTLD host = checkSuspiciousTLD_from suspiciousTlds host"

definition hex_lower :: rx where
  "hex_lower = Cls ''0123456789abcdef''"

text \<open>\<open>Inl\<close> is an exception that leaves the function (here from \<open>decodeURIComponent\<close>).\<close>

definition checkUrlStructure :: "platform \<Rightarrow> URL \<Rightarrow> js_error + threat option" where
  "checkUrlStructure js urlObj =
     (if length (href urlObj) > 2000
      then Inr (Some (plain_threat ''suspicious'' ''abnormally long URL''))
      else if length (split CHR ''.'' (hostname urlObj)) > 5
      then Inr (Some (plain_threat ''suspicious'' ''excessive subdomains''))
      else if includes_str (href urlObj) ''%'' \<and>
              test (rx_i (Seqs [Chr CHR ''%'', Rep 2 hex_lower])) (href urlObj)
      then (case decodeURIComponent js (href urlObj) of
              None \<Rightarrow> Inl URIError
            | Some decodedUrl \<Rightarrow>
                if includes_str decodedUrl ''<script>'' \<or> includes_str decodedUrl ''javascript:''
                then Inr (Some (plain_threat ''xss'' ''possible XSS attack''))
                else Inr None)
      else Inr None)"

text \<open>
  The loop of \<open>checkUrl\<close> over the security rules. \<open>rule.pattern.test\<close> on a rule without
  a pattern is a \<open>TypeError\<close>.
\<close>

fun checkUrl_rules :: "threat list \<Rightarrow> string \<Rightarrow> js_error + threat option" where
  "checkUrl_rules [] fullUrl = Inr None"
| "checkUrl_rules (rule # rest) fullUrl =
     (case pattern rule of
        None \<Rightarrow> Inl TypeError
      | Some p \<Rightarrow> if test p fullUrl then Inr (Some rule) else checkUrl_rules rest fullUrl)"

definition invalid_threat :: threat where
  "invalid_threat = plain_threat ''invalid'' ''invalid URL format''"

text \<open>
  \<open>checkUrl\<close>: the body of the \<open>try\<close> block, and the function with its \<open>catch\<close>. \<open>None\<close> is
  the result \<open>null\<close>.
\<close>

definition checkUrl_try :: "platform \<Rightarrow> security_manager \<Rightarrow> string \<Rightarrow> js_error + threat option" where
  "checkUrl_try js sm u =
     (case new_URL js u of
        None \<Rightarrow> Inl TypeError
      | Some urlObj \<Rightarrow>
          let host = toLowerCase (hostname urlObj);
              fullUrl = toLowerCase u
          in (case threatDatabase sm host of
                Some t \<Rightarrow> Inr (Some t)
              | None \<Rightarrow>
                 (case checkUrl_rules (securityRules sm) fullUrl of
                    Inl e \<Rightarrow> Inl e
                  | Inr (Some rule) \<Rightarrow> Inr (Some rule)
                  | Inr None \<Rightarrow>
                     (case checkDomainSpoofing host of
                        Some spoofingThreat \<Rightarrow> Inr (Some spoofingThreat)
                      | None \<Rightarrow>
                         (case checkSuspiciousTLD host of
                            Some tldThreat \<Rightarrow> Inr (Some tldThreat)
                          | None \<Rightarrow> checkUrlStructure js urlObj)))))"

definition checkUrl :: "platform \<Rightarrow> security_manager \<Rightarrow> string \<Rightarrow> threat option" where
  "checkUrl js sm u =
     (case checkUrl_try js sm u of
        Inl error \<Rightarrow> Some invalid_threat
      | Inr result \<Rightarrow> result)"

definition addSecurityRule :: "threat \<Rightarrow> security_manager \<Rightarrow> security_manager" where
  "addSecurityRule rule sm = sm\<lparr>securityRules := securityRules sm @ [rule]\<rparr>"

section \<open>Rules whose pattern keeps state\<close>

text \<open>
  \<open>addSecurityRule\<close> takes any rule object, so the pattern of a rule may be a regular
  expression with the flag \<open>g\<close> or \<open>y\<close>. For such an object \<open>test\<close> starts at \<open>lastIndex\<close>
  and writes \<open>lastIndex\<close>: the end of the match when there is one, 0 when there is none.
  The end of the match is that of the backtracking matcher of ECMAScript, which tries the
  alternatives from left to right and the longer repetition first. \<open>match_ends r s\<close> lists,
  in the order in which that matcher reaches them, what is left of \<open>s\<close> after a match of
  \<open>r\<close> at its start; an iteration of a repetition that consumes nothing is not taken.
\<close>

fun match_ends :: "rx \<Rightarrow> string \<Rightarrow> string list" where
  "match_ends Nul s = []"
| "match_ends Eps s = [s]"
| "match_ends (Chr c) s = (case s of [] \<Rightarrow> [] | x # xs \<Rightarrow> if x = c then [xs] else [])"
| "match_ends Dot s =
     (case s of [] \<Rightarrow> [] | x # xs \<Rightarrow> if x = CHR 0x0A \<or> x = CHR 0x0D then [] else [xs])"
| "match_ends (Cls cs) s = (case s of [] \<Rightarrow> [] | x # xs \<Rightarrow> if x \<in> set cs then [xs] else [])"
| "match_ends (Seq r1 r2) s = concat (map (match_ends r2) (match_ends r1 s))"
| "match_ends (Alt r1 r2) s = match_ends r1 s @ match_ends r2 s"
| "match_ends (Star r) s =
     concat (map (\<lambda>t. if length t < length s then match_ends (Star r) t else []) (match_ends r s))
     @ [s]"
| "match_ends Eol s = (if s = [] then [[]] else [])"

text \<open>
  \<open>find_end y r s\<close>: what is left of \<open>s\<close> after the first match of \<open>r\<close>, searched at the
  start of \<open>s\<close> only when \<open>y\<close> (sticky) is set, and from each position in turn otherwise.
\<close>

fun find_end :: "bool \<Rightarrow> rx \<Rightarrow> string \<Rightarrow> nat option" where
  "find_end y r [] = (case match_ends r [] of [] \<Rightarrow> None | t # ts \<Rightarrow> Some (length t))"
| "find_end y r (c # cs) =
     (case match_ends r (c # cs) of
        t # ts \<Rightarrow> Some (length t)
      | [] \<Rightarrow> if y then None else find_end y r cs)"

text \<open>A \<open>RegExp\<close> object with all that \<open>test\<close> reads and writes.\<close>

record RegExp_object = RegExp +
  global :: bool
  sticky :: bool
  lastIndex :: nat

text \<open>\<open>re.test(s)\<close>: the result and the object after the call.\<close>

definition RegExp_test :: "RegExp_object \<Rightarrow> string \<Rightarrow> bool \<times> RegExp_object" where
  "RegExp_test re s =
     (if \<not> global re \<and> \<not> sticky re then (test (RegExp.truncate re) s, re)
      else if lastIndex re > length s then (False, re\<lparr>lastIndex := 0\<rparr>)
      else
        let r = (if ignoreCase re then lower_rx (source re) else source re);
            str = (if ignoreCase re then toLowerCase s else s)
        in (case find_end (sticky re) r (drop (lastIndex re) str) of
              None \<Rightarrow> (False, re\<lparr>lastIndex := 0\<rparr>)
            | Some rest \<Rightarrow> (True, re\<lparr>lastIndex := length s - rest\<rparr>)))"

text \<open>
  A rule object with such a pattern, and the security manager that holds such rules. The
  verdict that \<open>checkUrl\<close> returns for a matching rule is the rule object; \<open>threat_of\<close>
  gives its properties, the pattern without its flags \<open>g\<close> and \<open>y\<close> and its \<open>lastIndex\<close>.
\<close>

record rule_object =
  domain' :: "string option"
  pattern' :: "RegExp_object option"
  type' :: string
  description' :: string

definition threat_of :: "rule_object \<Rightarrow> threat" where
  "threat_of rule =
     \<lparr>domain = domain' rule, pattern = map_option RegExp.truncate (pattern' rule),
      type = type' rule, description = description' rule\<rparr>"

record stateful_manager =
  isEnabled' :: bool
  threatDatabase' :: "string \<rightharpoonup> threat"
  blockedSites' :: "string list"
  securityRules' :: "rule_object list"
  scanResults' :: "string \<rightharpoonup> scan_log"

text \<open>
  The loop over the rules, with the rules as the loop leaves them: every rule that has
  been tested carries the \<open>lastIndex\<close> that its test has written.
\<close>

fun checkUrl_rules' :: "rule_object list \<Rightarrow> string \<Rightarrow> (js_error + threat option) \<times> rule_object list" where
  "checkUrl_rules' [] fullUrl = (Inr None, [])"
| "checkUrl_rules' (rule # rest) fullUrl =
     (case pattern' rule of
        None \<Rightarrow> (Inl TypeError, rule # rest)
      | Some p \<Rightarrow>
          let tested = RegExp_test p fullUrl;
              rule1 = rule\<lparr>pattern' := Some (snd tested)\<rparr>
          in if fst tested then (Inr (Some (threat_of rule1)), rule1 # rest)
             else let later = checkUrl_rules' rest fullUrl
                  in (fst later, rule1 # snd later))"

text \<open>\<open>checkUrl\<close> on such a manager: the verdict and the manager after the call.\<close>

definition checkUrl' :: "platform \<Rightarrow> stateful_manager \<Rightarrow> string \<Rightarrow> threat option \<times> stateful_manager" where
  "checkUrl' js sm u =
     (case new_URL js u of
        None \<Rightarrow> (Some invalid_threat, sm)
      | Some urlObj \<Rightarrow>
          let host = toLowerCase (hostname urlObj);
              fullUrl = toLowerCase u
          in (case threatDatabase' sm host of
                Some t \<Rightarrow> (Some t, sm)
              | None \<Rightarrow>
                  let scanned = checkUrl_rules' (securityRules' sm) fullUrl;
                      sm1 = sm\<lparr>securityRules' := snd scanned\<rparr>
                  in (case fst scanned of
                        Inl e \<Rightarrow> (Some invalid_threat, sm1)
                      | Inr (Some rule) \<Rightarrow> (Some rule, sm1)
                      | Inr None \<Rightarrow>
                         (case checkDomainSpoofing host of
                            Some spoofingThreat \<Rightarrow> (Some spoofingThreat, sm1)
                          | None \<Rightarrow>
                             (case checkSuspiciousTLD host of
                                Some tldThreat \<Rightarrow> (Some tldThreat, sm1)
                              | None \<Rightarrow>
                                 (case checkUrlStructure js urlObj of
                                    Inl e \<Rightarrow> (Some invalid_threat, sm1)
                                  | Inr result \<Rightarrow> (result, sm1)))))))"

definition addSecurityRule' :: "rule_object \<Rightarrow> stateful_manager \<Rightarrow> stateful_manager" where
  "addSecurityRule' rule sm = sm\<lparr>securityRules' := securityRules' sm @ [rule]\<rparr>"

text \<open>
  The managers of the first model are the managers whose patterns carry neither flag:
  \<open>stateful_of\<close> and \<open>stateless_view\<close> go from one model to the other.
\<close>

definition RegExp_object_of :: "RegExp \<Rightarrow> RegExp_object" where
  "RegExp_object_of re =
     \<lparr>source = source re, ignoreCase = ignoreCase re, global = False, sticky = False, lastIndex = 0\<rparr>"

definition rule_object_of :: "threat \<Rightarrow> rule_object" where
  "rule_object_of t =
     \<lparr>domain' = domain t, pattern' = map_option RegExp_object_of (pattern t),
      type' = type t, description' = description t\<rparr>"

definition stateful_of :: "security_manager \<Rightarrow> stateful_manager" where
  "stateful_of sm =
     \<lparr>isEnabled' = isEnabled sm, threatDatabase' = threatDatabase sm,
      blockedSites' = blockedSites sm, securityRules' = map rule_object_of (securityRules sm),
      scanResults' = scanResults sm\<rparr>"

definition stateless_view :: "stateful_manager \<Rightarrow> security_manager" where
  "stateless_view sm =
     \<lparr>isEnabled = isEnabled' sm, threatDatabase = threatDatabase' sm,
      blockedSites = blockedSites' sm, securityRules = map threat_of (securityRules' sm),
      scanResults = scanResults' sm\<rparr>"

text \<open>A rule keeps no state when its pattern, if it has one, has neither the flag \<open>g\<close> nor \<open>y\<close>.\<close>

definition keeps_no_state :: "rule_object \<Rightarrow> bool" where
  "keeps_no_state rule =
     (case pattern' rule of None \<Rightarrow> True | Some p \<Rightarrow> global p = False \<and> sticky p = False)"

section \<open>The persistent store (\<open>localStorage\<close>)\<close>

text \<open>
  Each key of \<open>localStorage\<close> that the code uses is written by one function, with one
  shape of JSON value; the store is a record with one field per key, \<open>None\<close> for an absent
  key. \<open>setItem\<close> is taken to succeed (no quota).
\<close>

record settings =
  theme :: string
  adBlockEnabled :: bool
  securityEnabled :: bool
  privacyMode :: bool
  defaultSearchEngine :: string

text \<open>
  The \<open>pattern\<close> of a filter: a regular expression, a CSS selector string, or the empty
  object that \<open>JSON.parse\<close> returns for a stored regular expression (\<open>JSON.stringify\<close>
  writes a \<open>RegExp\<close> as \<open>{}\<close>).
\<close>

datatype filter_pattern = RegExp_pattern RegExp | String_pattern string | Object_pattern

record ad_filter =
  f_pattern :: filter_pattern
  f_type :: string
  f_description :: string
  custom :: bool

record security_event =
  ev_type :: string
  details :: string
  ev_timestamp :: nat
  ev_url :: string

record blocked_request =
  req_type :: string
  req_url :: string
  req_timestamp :: nat

record security_settings =
  stored_adBlockEnabled :: bool
  stored_malwareProtection :: bool
  stored_phishingProtection :: bool
  stored_safeBrowsing :: bool

record privacy_settings =
  stored_trackingProtection :: bool
  stored_fingerprintingProtection :: bool
  stored_cookieBlocking :: bool
  stored_httpsUpgrade :: bool

record browser_settings =
  stored_theme :: string
  stored_adBlockerEnabled :: bool
  stored_browser_trackingProtection :: bool

record storage =
  umbra_settings :: "settings option"
  umbra_custom_filters :: "ad_filter list option"
  umbra_ad_whitelist :: "string list option"
  umbraSecurityLog :: "security_event list option"
  umbraBlockedRequests :: "blocked_request list option"
  umbraSecuritySettings :: "security_settings option"
  umbraPrivacySettings :: "privacy_settings option"
  umbraSettings :: "browser_settings option"

definition empty_storage :: storage where
  "empty_storage =
     \<lparr>umbra_settings = None, umbra_custom_filters = None, umbra_ad_whitelist = None,
      umbraSecurityLog = None, umbraBlockedRequests = None, umbraSecuritySettings = None,
      umbraPrivacySettings = None, umbraSettings = None\<rparr>"

section \<open>Elements of a document\<close>

text \<open>
  The properties of an element that the blocking code reads or writes. \<open>style\<close> gives the
  inline style properties, the empty string for one that is not set; \<open>isConnected\<close> says
  whether the element is attached to the document. Elements are objects: a document is a
  map from references to elements, and \<open>querySelectorAll\<close> ranges over the attached ones.
\<close>

record element =
  tagName :: string
  attributes :: "string \<rightharpoonup> string"
  style :: "string \<Rightarrow> string"
  e_src :: "string option"
  e_href :: "string option"
  textContent :: string
  isConnected :: bool

type_synonym document = "nat \<rightharpoonup> element"

definition remove :: "element \<Rightarrow> element" where
  "remove e = e\<lparr>isConnected := False\<rparr>"

definition setAttribute :: "string \<Rightarrow> string \<Rightarrow> element \<Rightarrow> element" where
  "setAttribute name v e = e\<lparr>attributes := (attributes e)(name \<mapsto> v)\<rparr>"

definition removeAttribute :: "string \<Rightarrow> element \<Rightarrow> element" where
  "removeAttribute name e = e\<lparr>attributes := (attributes e)(name := None)\<rparr>"

definition set_style :: "string \<Rightarrow> string \<Rightarrow> element \<Rightarrow> element" where
  "set_style prop v e = e\<lparr>style := (style e)(prop := v)\<rparr>"

section \<open>The ad blocker (\<open>AdBlocker\<close>, js/features)\<close>

record statistics =
  totalBlocked :: nat
  sessionBlocked :: nat
  blockedByType :: "string \<rightharpoonup> nat"

text \<open>
  \<open>blockedAds\<close> and \<open>whitelist\<close> are \<open>Set\<close>s (lists without repetition, in insertion order),
  \<open>filterLists\<close> a \<open>Map\<close> in insertion order.
\<close>

record ad_blocker =
  ab_isEnabled :: bool
  blockedAds :: "string list"
  filterLists :: "(string \<times> ad_filter list) list"
  customFilters :: "ad_filter list"
  whitelist :: "string list"
  statistics :: statistics

definition Set_add :: "string \<Rightarrow> string list \<Rightarrow> string list" where
  "Set_add x xs = (if x \<in> set xs then xs else xs @ [x])"

definition builtin_filter :: "filter_pattern \<Rightarrow> string \<Rightarrow> string \<Rightarrow> ad_filter" where
  "builtin_filter p t d = \<lparr>f_pattern = p, f_type = t, f_description = d, custom = False\<rparr>"

definition re_filter :: "rx \<Rightarrow> string \<Rightarrow> string \<Rightarrow> ad_filter" where
  "re_filter r t d = builtin_filter (RegExp_pattern (rx_i r)) t d"

definition css_filter :: "string \<Rightarrow> string \<Rightarrow> ad_filter" where
  "css_filter sel d = builtin_filter (String_pattern sel) ''css'' d"

definition defaultFilters :: "ad_filter list" where
  "defaultFilters =
    [re_filter (Str ''.ads.'') ''domain'' ''ad domain'',
     re_filter (Seqs [Str ''ads'', Plus digit, Chr CHR ''.'']) ''domain'' ''ad subdomain'',
     re_filter (Str ''googleads'') ''domain'' ''Google ads'',
     re_filter (Str ''googlesyndication'') ''domain'' ''Google Adsense'',
     re_filter (Str ''doubleclick'') ''domain'' ''DoubleClick ads'',
     re_filter (Str ''facebook.com/tr'') ''url'' ''Facebook ad tracking'',
     re_filter (Str ''twitter.com/i/adsct'') ''url'' ''Twitter ads'',
     css_filter ''.ad'' ''ad class'',
     css_filter ''.ads'' ''ad class, plural'',
     css_filter ''.advertisement'' ''advertisement element'',
     css_filter ''.banner'' ''banner ad'',
     css_filter ''.sponsor'' ''sponsor ad'',
     css_filter ''.promoted'' ''promoted ad'',
     css_filter (''[id*='' @ [CHR 0x22] @ ''ad'' @ [CHR 0x22] @ '']'') ''ad id element'',
     css_filter (''[class*='' @ [CHR 0x22] @ ''ad-'' @ [CHR 0x22] @ '']'') ''ad class element'',
     re_filter (Str ''amazon-adsystem'') ''domain'' ''Amazon ads'',
     re_filter (Str ''adsystem.amazon'') ''domain'' ''Amazon ad system'',
     re_filter (Str ''outbrain.com'') ''domain'' ''Outbrain ads'',
     re_filter (Str ''taboola.com'') ''domain'' ''Taboola ads'',
     re_filter (Str ''criteo.com'') ''domain'' ''Criteo ads'',
     re_filter (Seqs [Str ''googlevideo.com'', Star Dot, Str ''&ad'']) ''url'' ''YouTube ads'',
     re_filter (Str ''youtube.com/api/stats/ads'') ''url'' ''YouTube ad statistics'',
     re_filter (Seqs [Str ''pop'', Star Dot, Str ''ad'']) ''url'' ''pop-up ad'',
     re_filter (Str ''popup'') ''url'' ''pop-up'']"

text \<open>
  The loops of \<open>shouldBlockUrl\<close>. In a filter list, \<open>filter.pattern.test\<close> is called without
  a guard, a \<open>TypeError\<close> when the pattern is not a regular expression; the loop over the
  custom filters asks for \<open>filter.pattern.test\<close> first.
\<close>

fun shouldBlockUrl_filters :: "ad_filter list \<Rightarrow> string \<Rightarrow> string \<Rightarrow> js_error + bool" where
  "shouldBlockUrl_filters [] fullUrl host = Inr False"
| "shouldBlockUrl_filters (f # fs) fullUrl host =
     (if f_type f = ''domain'' \<or> f_type f = ''url''
      then (case f_pattern f of
              RegExp_pattern re \<Rightarrow>
                if test re fullUrl \<or> test re host then Inr True
                else shouldBlockUrl_filters fs fullUrl host
            | _ \<Rightarrow> Inl TypeError)
      else shouldBlockUrl_filters fs fullUrl host)"

fun shouldBlockUrl_lists :: "(string \<times> ad_filter list) list \<Rightarrow> string \<Rightarrow> string \<Rightarrow> js_error + bool" where
  "shouldBlockUrl_lists [] fullUrl host = Inr False"
| "shouldBlockUrl_lists ((listName, filters) # rest) fullUrl host =
     (case shouldBlockUrl_filters filters fullUrl host of
        Inl e \<Rightarrow> Inl e
      | Inr True \<Rightarrow> Inr True
      | Inr False \<Rightarrow> shouldBlockUrl_lists rest fullUrl host)"

fun shouldBlockUrl_custom :: "ad_filter list \<Rightarrow> string \<Rightarrow> bool" where
  "shouldBlockUrl_custom [] fullUrl = False"
| "shouldBlockUrl_custom (f # fs) fullUrl =
     (if f_type f = ''domain'' \<or> f_type f = ''url''
      then (case f_pattern f of
              RegExp_pattern re \<Rightarrow>
                if test re fullUrl then True else shouldBlockUrl_custom fs fullUrl
            | _ \<Rightarrow> shouldBlockUrl_custom fs fullUrl)
      else shouldBlockUrl_custom fs fullUrl)"

definition shouldBlockUrl :: "platform \<Rightarrow> ad_blocker \<Rightarrow> string \<Rightarrow> bool" where
  "shouldBlockUrl js ab u =
     (case new_URL js u of
        None \<Rightarrow> False
      | Some urlObj \<Rightarrow>
          let host = toLowerCase (hostname urlObj);
              fullUrl = toLowerCase u
          in if host \<in> set (whitelist ab) then False
             else (case shouldBlockUrl_lists (filterLists ab) fullUrl host of
                     Inl error \<Rightarrow> False
                   | Inr True \<Rightarrow> True
                   | Inr False \<Rightarrow> shouldBlockUrl_custom (customFilters ab) fullUrl))"

text \<open>\<open>blockAd(identifier, type)\<close> of the ad blocker: the statistics of a blocked ad.\<close>

definition AdBlocker_blockAd :: "string \<Rightarrow> string \<Rightarrow> ad_blocker \<Rightarrow> ad_blocker" where
  "AdBlocker_blockAd identifier t ab =
     ab\<lparr>blockedAds := Set_add identifier (blockedAds ab),
        statistics :=
          \<lparr>totalBlocked = totalBlocked (statistics ab) + 1,
           sessionBlocked = sessionBlocked (statistics ab) + 1,
           blockedByType = (blockedByType (statistics ab))
             (t \<mapsto> (case blockedByType (statistics ab) t of None \<Rightarrow> 1 | Some n \<Rightarrow> n + 1))\<rparr>\<rparr>"

definition hideElement :: "element \<Rightarrow> element" where
  "hideElement e =
     setAttribute ''data-umbra-blocked'' ''true''
       (set_style ''overflow'' ''hidden''
         (set_style ''maxHeight'' ''0''
           (set_style ''opacity'' ''0''
             (set_style ''visibility'' ''hidden''
               (set_style ''display'' ''none'' e)))))"

section \<open>The browser core (\<open>UmbraBrowser\<close>, js/core)\<close>

text \<open>
  The state of the browser object once \<open>init\<close> has run: its own fields, the security
  manager and the ad blocker, the notifications shown so far, the persistent store, the
  part of the page that navigation and blocking touch, and the pending \<open>setTimeout\<close>
  callbacks.
\<close>

record frame =
  src :: string
  frame_hidden :: bool

record overlay =
  reason :: string
  overlay_hidden :: bool

text \<open>
  An element that \<open>getElementById\<close> or \<open>querySelector\<close> may not find is an option; for
  \<open>startPage\<close> and \<open>loadingOverlay\<close> the value says whether the class \<open>hidden\<close> is set.
  \<open>frameDoc\<close> is the document inside the site frame.
\<close>

record page =
  addressBar :: "string option"
  siteFrame :: "frame option"
  startPage :: "bool option"
  blockedOverlay :: "overlay option"
  viewport :: bool
  loadingOverlay :: "bool option"
  privacyIndicator :: bool
  frameDoc :: document

datatype timer = LoadUrl string nat | HideLoading

text \<open>
  \<open>eventListeners\<close> maps an event name to the array of its callbacks. The callbacks are
  bound methods; the model names them, one type per event, and keeps one array per event
  name. The callbacks of the security manager, of the ad blocker for \<open>beforeNavigate\<close>
  and of the browser itself are in the model; those of the privacy manager and of the ad
  blocker for \<open>navigate\<close> are not.
\<close>

datatype beforeNavigate_callback =
    SecurityManager_handleBeforeNavigation_cb
  | AdBlocker_handleBeforeNavigation_cb
  | UmbraBrowser_handleBeforeNavigation_cb

datatype navigate_callback = UmbraBrowser_handleNavigation_cb

datatype securityThreat_callback = UmbraBrowser_handleSecurityThreat_cb

datatype siteBlocked_callback = UmbraBrowser_handleSiteBlocked_cb

datatype privacyModeToggle_callback = UmbraBrowser_handlePrivacyModeToggle_cb

record listeners =
  beforeNavigate :: "beforeNavigate_callback list"
  navigate_cbs :: "navigate_callback list"
  securityThreat :: "securityThreat_callback list"
  siteBlocked :: "siteBlocked_callback list"
  privacyModeToggle :: "privacyModeToggle_callback list"

record umbra =
  isPrivacyMode :: bool
  currentTab :: "nat option"
  settings :: settings
  securityManager :: security_manager
  adBlocker :: ad_blocker
  eventListeners :: listeners
  notifications :: "(string \<times> string) list"
  localStorage :: storage
  dom :: page
  timers :: "(nat \<times> timer) list"

datatype js_value = Undefined | Boolean bool

text \<open>\<open>notificationManager.show(message, type)\<close>\<close>

definition notify :: "string \<Rightarrow> string \<Rightarrow> umbra \<Rightarrow> umbra" where
  "notify message t u = u\<lparr>notifications := notifications u @ [(message, t)]\<rparr>"

definition setTimeout :: "timer \<Rightarrow> nat \<Rightarrow> umbra \<Rightarrow> umbra" where
  "setTimeout callback delay u = u\<lparr>timers := timers u @ [(delay, callback)]\<rparr>"

definition showBlockedPage :: "string \<Rightarrow> string \<Rightarrow> nat option \<Rightarrow> umbra \<Rightarrow> umbra" where
  "showBlockedPage u_url why tabId u =
     (if viewport (dom u)
      then u\<lparr>dom := (dom u)
             \<lparr>startPage := map_option (\<lambda>h. True) (startPage (dom u)),
              siteFrame := map_option (\<lambda>f. f\<lparr>frame_hidden := True\<rparr>) (siteFrame (dom u)),
              blockedOverlay := Some \<lparr>reason = why, overlay_hidden = False\<rparr>\<rparr>\<rparr>
      else u)"

definition UmbraBrowser_handleSiteBlocked :: "string \<times> string \<times> nat option \<Rightarrow> umbra \<Rightarrow> umbra" where
  "UmbraBrowser_handleSiteBlocked data u =
     (case data of (u_url, why, tabId) \<Rightarrow> showBlockedPage u_url why tabId u)"

text \<open>
  \<open>emit(event, data)\<close>, for each event name: every callback of the event is called in turn
  and its return value is dropped; the function has no \<open>return\<close> statement, so its value
  is \<open>undefined\<close>.
\<close>

definition emit_siteBlocked :: "string \<times> string \<times> nat option \<Rightarrow> umbra \<Rightarrow> js_value \<times> umbra" where
  "emit_siteBlocked data u =
     (Undefined,
      foldl (\<lambda>v cb. case cb of UmbraBrowser_handleSiteBlocked_cb \<Rightarrow>
                        UmbraBrowser_handleSiteBlocked data v)
        u (siteBlocked (eventListeners u)))"

definition UmbraBrowser_handleSecurityThreat :: "string \<times> threat \<times> nat option \<Rightarrow> umbra \<Rightarrow> umbra" where
  "UmbraBrowser_handleSecurityThreat data u =
     (case data of (u_url, thr, tabId) \<Rightarrow>
        snd (emit_siteBlocked (u_url, description thr, tabId)
               (notify (''a security threat was detected: '' @ description thr) ''error'' u)))"

definition emit_securityThreat :: "string \<times> threat \<times> nat option \<Rightarrow> umbra \<Rightarrow> js_value \<times> umbra" where
  "emit_securityThreat data u =
     (Undefined,
      foldl (\<lambda>v cb. case cb of UmbraBrowser_handleSecurityThreat_cb \<Rightarrow>
                        UmbraBrowser_handleSecurityThreat data v)
        u (securityThreat (eventListeners u)))"

text \<open>\<open>logThreat\<close> and \<open>handleSecurityThreat\<close> of the security manager; \<open>now\<close> is the clock.\<close>

definition logThreat :: "string \<Rightarrow> string \<Rightarrow> threat \<Rightarrow> security_manager \<Rightarrow> security_manager" where
  "logThreat now u_url thr sm =
     sm\<lparr>scanResults := (scanResults sm)
           (u_url \<mapsto> \<lparr>timestamp = now, url = u_url, logged_threat = thr, blocked = True\<rparr>)\<rparr>"

definition handleSecurityThreat :: "string \<Rightarrow> string \<Rightarrow> threat \<Rightarrow> umbra \<Rightarrow> umbra" where
  "handleSecurityThreat now u_url thr u =
     (let u1 = u\<lparr>securityManager := (securityManager u)
                  \<lparr>blockedSites := Set_add u_url (blockedSites (securityManager u))\<rparr>\<rparr>;
          u2 = u1\<lparr>securityManager := logThreat now u_url thr (securityManager u1)\<rparr>;
          u3 = snd (emit_securityThreat (u_url, thr, None) u2)
      in notify (''security threat detected: '' @ description thr) ''error'' u3)"

definition SecurityManager_handleBeforeNavigation ::
  "platform \<Rightarrow> string \<Rightarrow> string \<times> nat \<Rightarrow> umbra \<Rightarrow> bool \<times> umbra" where
  "SecurityManager_handleBeforeNavigation js now data u =
     (case data of (u_url, tabId) \<Rightarrow>
        if \<not> isEnabled (securityManager u) then (True, u)
        else (case checkUrl js (securityManager u) u_url of
                Some thr \<Rightarrow> (False, handleSecurityThreat now u_url thr u)
              | None \<Rightarrow> (True, u)))"

definition AdBlocker_handleBeforeNavigation ::
  "platform \<Rightarrow> string \<times> nat \<Rightarrow> umbra \<Rightarrow> bool \<times> umbra" where
  "AdBlocker_handleBeforeNavigation js data u =
     (case data of (u_url, tabId) \<Rightarrow>
        if \<not> ab_isEnabled (adBlocker u) then (True, u)
        else if shouldBlockUrl js (adBlocker u) u_url
        then (False, u\<lparr>adBlocker := AdBlocker_blockAd u_url ''url'' (adBlocker u)\<rparr>)
        else (True, u))"

text \<open>
  \<open>handleBeforeNavigation\<close> of the browser. After \<open>init\<close> the field \<open>securityManager\<close> is an
  object, so \<open>this.settings.securityEnabled && this.securityManager\<close> is the setting.
\<close>

definition UmbraBrowser_handleBeforeNavigation ::
  "platform \<Rightarrow> string \<times> nat \<Rightarrow> umbra \<Rightarrow> bool \<times> umbra" where
  "UmbraBrowser_handleBeforeNavigation js data u =
     (case data of (u_url, tabId) \<Rightarrow>
        if securityEnabled (settings u)
        then (case checkUrl js (securityManager u) u_url of
                Some thr \<Rightarrow> (False, snd (emit_securityThreat (u_url, thr, Some tabId) u))
              | None \<Rightarrow> (True, u))
        else (True, u))"

fun call_beforeNavigate ::
  "platform \<Rightarrow> string \<Rightarrow> beforeNavigate_callback \<Rightarrow> string \<times> nat \<Rightarrow> umbra \<Rightarrow> bool \<times> umbra" where
  "call_beforeNavigate js now SecurityManager_handleBeforeNavigation_cb data u =
     SecurityManager_handleBeforeNavigation js now data u"
| "call_beforeNavigate js now AdBlocker_handleBeforeNavigation_cb data u =
     AdBlocker_handleBeforeNavigation js data u"
| "call_beforeNavigate js now UmbraBrowser_handleBeforeNavigation_cb data u =
     UmbraBrowser_handleBeforeNavigation js data u"

definition emit_beforeNavigate ::
  "platform \<Rightarrow> string \<Rightarrow> string \<times> nat \<Rightarrow> umbra \<Rightarrow> js_value \<times> umbra" where
  "emit_beforeNavigate js now data u =
     (Undefined,
      foldl (\<lambda>v cb. snd (call_beforeNavigate js now cb data v))
        u (beforeNavigate (eventListeners u)))"

definition UmbraBrowser_handleNavigation :: "string \<times> nat \<Rightarrow> umbra \<Rightarrow> umbra" where
  "UmbraBrowser_handleNavigation data u =
     (case data of (u_url, tabId) \<Rightarrow>
        u\<lparr>dom := (dom u)\<lparr>addressBar := map_option (\<lambda>v. u_url) (addressBar (dom u))\<rparr>\<rparr>)"

definition emit_navigate :: "string \<times> nat \<Rightarrow> umbra \<Rightarrow> js_value \<times> umbra" where
  "emit_navigate data u =
     (Undefined,
      foldl (\<lambda>v cb. case cb of UmbraBrowser_handleNavigation_cb \<Rightarrow>
                        UmbraBrowser_handleNavigation data v)
        u (navigate_cbs (eventListeners u)))"

definition showLoading :: "umbra \<Rightarrow> umbra" where
  "showLoading u = u\<lparr>dom := (dom u)\<lparr>loadingOverlay := map_option (\<lambda>h. False) (loadingOverlay (dom u))\<rparr>\<rparr>"

definition hideLoading :: "umbra \<Rightarrow> umbra" where
  "hideLoading u = u\<lparr>dom := (dom u)\<lparr>loadingOverlay := map_option (\<lambda>h. True) (loadingOverlay (dom u))\<rparr>\<rparr>"

definition loadUrl :: "string \<Rightarrow> nat \<Rightarrow> umbra \<Rightarrow> umbra" where
  "loadUrl u_url tabId u =
     (case siteFrame (dom u) of
        None \<Rightarrow> u
      | Some f \<Rightarrow>
          let u1 = u\<lparr>dom := (dom u)
                     \<lparr>siteFrame := Some (f\<lparr>src := u_url, frame_hidden := False\<rparr>),
                      startPage := map_option (\<lambda>h. True) (startPage (dom u)),
                      blockedOverlay :=
                        map_option (\<lambda>ov. ov\<lparr>overlay_hidden := True\<rparr>) (blockedOverlay (dom u))\<rparr>\<rparr>;
              u2 = setTimeout HideLoading 2000 u1
          in snd (emit_navigate (u_url, tabId) u2))"

text \<open>What a pending \<open>setTimeout\<close> callback does when it runs.\<close>

fun run_timer :: "timer \<Rightarrow> umbra \<Rightarrow> umbra" where
  "run_timer (LoadUrl u_url tabId) u = loadUrl u_url tabId u"
| "run_timer HideLoading u = hideLoading u"

definition navigate :: "platform \<Rightarrow> string \<Rightarrow> string \<Rightarrow> umbra \<Rightarrow> umbra" where
  "navigate js now u_url u =
     (if u_url = [] then u
      else
        let url1 =
              (if \<not> startsWith u_url ''http://'' \<and> \<not> startsWith u_url ''https://''
               then (if includes_str u_url ''.'' \<and> \<not> includes_str u_url '' ''
                     then ''https://'' @ u_url
                     else ''https://www.google.com/search?q='' @ encodeURIComponent js u_url)
               else u_url);
            tabId = (case currentTab u of Some t \<Rightarrow> t | None \<Rightarrow> 1);
            emitted = emit_beforeNavigate js now (url1, tabId) u;
            canNavigate = fst emitted
        in if canNavigate = Boolean False then snd emitted
           else setTimeout (LoadUrl url1 tabId) 500 (showLoading (snd emitted)))"

definition saveSettings :: "umbra \<Rightarrow> umbra" where
  "saveSettings u = u\<lparr>localStorage := (localStorage u)\<lparr>umbra_settings := Some (settings u)\<rparr>\<rparr>"

definition showPrivacyIndicator :: "umbra \<Rightarrow> umbra" where
  "showPrivacyIndicator u = u\<lparr>dom := (dom u)\<lparr>privacyIndicator := True\<rparr>\<rparr>"

definition hidePrivacyIndicator :: "umbra \<Rightarrow> umbra" where
  "hidePrivacyIndicator u = u\<lparr>dom := (dom u)\<lparr>privacyIndicator := False\<rparr>\<rparr>"

definition handlePrivacyModeToggle :: "bool \<Rightarrow> umbra \<Rightarrow> umbra" where
  "handlePrivacyModeToggle enabled u =
     (let u1 = u\<lparr>isPrivacyMode := enabled\<rparr>;
          u2 = u1\<lparr>settings := (settings u1)\<lparr>privacyMode := enabled\<rparr>\<rparr>;
          u3 = saveSettings u2
      in if enabled
         then notify ''privacy mode has been enabled'' ''success'' (showPrivacyIndicator u3)
         else notify ''privacy mode has been disabled'' ''warning'' (hidePrivacyIndicator u3))"

subsection \<open>Methods of the managers that change the browser state\<close>

definition stored_filter :: "ad_filter \<Rightarrow> ad_filter" where
  "stored_filter f =
     f\<lparr>f_pattern := (case f_pattern f of RegExp_pattern re \<Rightarrow> Object_pattern | p \<Rightarrow> p)\<rparr>"

definition saveCustomFilters :: "umbra \<Rightarrow> umbra" where
  "saveCustomFilters u =
     u\<lparr>localStorage := (localStorage u)
          \<lparr>umbra_custom_filters := Some (map stored_filter (customFilters (adBlocker u)))\<rparr>\<rparr>"

text \<open>
  \<open>addCustomFilter\<close>: the result is the exception thrown, if any, with the state the call
  leaves behind.
\<close>

definition addCustomFilter ::
  "platform \<Rightarrow> string \<Rightarrow> string \<Rightarrow> string \<Rightarrow> umbra \<Rightarrow> (js_error + unit) \<times> umbra" where
  "addCustomFilter js pat t descr u =
     (case new_RegExp_i js pat of
        None \<Rightarrow> (Inl SyntaxError, u)
      | Some re \<Rightarrow>
          let f = \<lparr>f_pattern = RegExp_pattern re, f_type = t, f_description = descr,
                   custom = True\<rparr>;
              u1 = u\<lparr>adBlocker := (adBlocker u)
                       \<lparr>customFilters := customFilters (adBlocker u) @ [f]\<rparr>\<rparr>;
              u2 = saveCustomFilters u1
          in (Inr (), notify ''custom filter added'' ''success'' u2))"

definition saveWhitelist :: "umbra \<Rightarrow> umbra" where
  "saveWhitelist u =
     u\<lparr>localStorage := (localStorage u)\<lparr>umbra_ad_whitelist := Some (whitelist (adBlocker u))\<rparr>\<rparr>"

definition addToWhitelist :: "string \<Rightarrow> umbra \<Rightarrow> umbra" where
  "addToWhitelist d u =
     notify (d @ '' was added to the whitelist'') ''success''
       (saveWhitelist
          (u\<lparr>adBlocker := (adBlocker u)
                \<lparr>whitelist := Set_add (toLowerCase d) (whitelist (adBlocker u))\<rparr>\<rparr>))"

definition AdBlocker_disable :: "umbra \<Rightarrow> umbra" where
  "AdBlocker_disable u =
     notify ''ad blocking disabled'' ''warning''
       (u\<lparr>adBlocker := (adBlocker u)\<lparr>ab_isEnabled := False\<rparr>\<rparr>)"

text \<open>\<open>whitelistDomain\<close> and \<open>blockDomain\<close> of the security manager.\<close>

definition whitelistDomain :: "string \<Rightarrow> umbra \<Rightarrow> umbra" where
  "whitelistDomain d u =
     notify (d @ '' was added to the whitelist'') ''success''
       (u\<lparr>securityManager := (securityManager u)
             \<lparr>threatDatabase := (threatDatabase (securityManager u))(d := None),
              blockedSites := removeAll d (blockedSites (securityManager u))\<rparr>\<rparr>)"

definition blockDomain :: "string \<Rightarrow> umbra \<Rightarrow> umbra" where
  "blockDomain d u =
     notify (d @ '' was blocked'') ''success''
       (u\<lparr>securityManager := (securityManager u)
             \<lparr>threatDatabase := (threatDatabase (securityManager u))
                (d \<mapsto> plain_threat ''blocked'' ''blocked by the user'')\<rparr>\<rparr>)"

text \<open>The defaults of the settings, and the ad blocker that its constructor builds on a store.\<close>

definition default_settings :: settings where
  "default_settings =
     \<lparr>theme = ''light'', adBlockEnabled = True, securityEnabled = True, privacyMode = True,
      defaultSearchEngine = ''google''\<rparr>"

definition AdBlocker_new :: "storage \<Rightarrow> ad_blocker" where
  "AdBlocker_new st =
     \<lparr>ab_isEnabled = True, blockedAds = [],
      filterLists = [(''default'', defaultFilters)],
      customFilters = (case umbra_custom_filters st of Some fs \<Rightarrow> fs | None \<Rightarrow> []),
      whitelist = (case umbra_ad_whitelist st of
                   Some ds \<Rightarrow> foldl (\<lambda>xs d. Set_add d xs) [] ds | None \<Rightarrow> []),
      statistics = \<lparr>totalBlocked = 0, sessionBlocked = 0, blockedByType = Map.empty\<rparr>\<rparr>"

section \<open>The page scripts (scripts/: \<open>UmbraBrowser\<close>, \<open>PrivacyManager\<close>, \<open>SecurityManager\<close>)\<close>

text \<open>
  The second implementation in the repository keeps three objects on \<open>window\<close>. Of each
  object the fields that the logging, saving and ad hiding code reads or writes are kept.
  A field whose name is taken by the first implementation carries a prime.
\<close>

record browser =
  currentTheme :: string
  isPrivateMode :: bool
  adBlockerEnabled :: bool
  browser_trackingProtection :: bool

record privacy_manager =
  trackingProtection :: bool
  fingerprintingProtection :: bool
  cookieBlocking :: bool
  httpsUpgrade :: bool
  privateMode :: bool

record page_security =
  adBlockEnabled' :: bool
  malwareProtection :: bool
  phishingProtection :: bool
  safeBrowsing :: bool
  blockedAds' :: nat
  blockedMalware :: nat
  blockedPhishing :: nat

text \<open>
  \<open>window\<close>: \<open>window.umbraBrowser\<close> (undefined until the browser object has been built),
  \<open>window.privacyManager\<close>, \<open>window.securityManager\<close>, \<open>localStorage\<close> and the elements of
  \<open>document\<close>.
\<close>

record window =
  umbraBrowser :: "browser option"
  privacyManager :: privacy_manager
  securityManager' :: page_security
  localStorage' :: storage
  document :: document

text \<open>\<open>window.umbraBrowser && !window.umbraBrowser.isPrivateMode\<close>\<close>

definition may_persist :: "window \<Rightarrow> bool" where
  "may_persist w = (case umbraBrowser w of None \<Rightarrow> False | Some b \<Rightarrow> \<not> isPrivateMode b)"

text \<open>
  \<open>logSecurityEvent(type, details)\<close>; \<open>now\<close> is \<open>Date.now()\<close> and \<open>here\<close> is
  \<open>window.location.href\<close>. The status text that \<open>updateSecurityStats\<close> rewrites is not in
  the model.
\<close>

definition logSecurityEvent :: "nat \<Rightarrow> string \<Rightarrow> string \<Rightarrow> string \<Rightarrow> window \<Rightarrow> window" where
  "logSecurityEvent now here t d w =
     (let event = \<lparr>ev_type = t, details = d, ev_timestamp = now, ev_url = here\<rparr>;
          securityLog =
            (case umbraSecurityLog (localStorage' w) of None \<Rightarrow> [] | Some l \<Rightarrow> l) @ [event];
          securityLog1 =
            (if length securityLog > 1000
             then drop (length securityLog - 1000) securityLog else securityLog)
      in if may_persist w
         then w\<lparr>localStorage' := (localStorage' w)\<lparr>umbraSecurityLog := Some securityLog1\<rparr>\<rparr>
         else w)"

definition logBlockedRequest :: "nat \<Rightarrow> string \<Rightarrow> string \<Rightarrow> window \<Rightarrow> window" where
  "logBlockedRequest now t u_url w =
     (let blockedRequests =
            (case umbraBlockedRequests (localStorage' w) of None \<Rightarrow> [] | Some l \<Rightarrow> l)
            @ [\<lparr>req_type = t, req_url = u_url, req_timestamp = now\<rparr>];
          blockedRequests1 =
            (if length blockedRequests > 100
             then drop (length blockedRequests - 100) blockedRequests else blockedRequests)
      in if \<not> privateMode (privacyManager w)
         then w\<lparr>localStorage' := (localStorage' w)\<lparr>umbraBlockedRequests := Some blockedRequests1\<rparr>\<rparr>
         else w)"

definition saveSecuritySettings :: "window \<Rightarrow> window" where
  "saveSecuritySettings w =
     (if may_persist w
      then w\<lparr>localStorage' := (localStorage' w)
             \<lparr>umbraSecuritySettings := Some
                \<lparr>stored_adBlockEnabled = adBlockEnabled' (securityManager' w),
                 stored_malwareProtection = malwareProtection (securityManager' w),
                 stored_phishingProtection = phishingProtection (securityManager' w),
                 stored_safeBrowsing = safeBrowsing (securityManager' w)\<rparr>\<rparr>\<rparr>
      else w)"

definition savePrivacySettings :: "window \<Rightarrow> window" where
  "savePrivacySettings w =
     (if \<not> privateMode (privacyManager w)
      then w\<lparr>localStorage' := (localStorage' w)
             \<lparr>umbraPrivacySettings := Some
                \<lparr>stored_trackingProtection = trackingProtection (privacyManager w),
                 stored_fingerprintingProtection = fingerprintingProtection (privacyManager w),
                 stored_cookieBlocking = cookieBlocking (privacyManager w),
                 stored_httpsUpgrade = httpsUpgrade (privacyManager w)\<rparr>\<rparr>\<rparr>
      else w)"

text \<open>\<open>saveSettings\<close> of the browser object of scripts/; it runs as a method of that object.\<close>

definition UmbraBrowser_saveSettings :: "browser \<Rightarrow> window \<Rightarrow> window" where
  "UmbraBrowser_saveSettings b w =
     (if \<not> isPrivateMode b
      then w\<lparr>localStorage' := (localStorage' w)
             \<lparr>umbraSettings := Some
                \<lparr>stored_theme = currentTheme b,
                 stored_adBlockerEnabled = adBlockerEnabled b,
                 stored_browser_trackingProtection = browser_trackingProtection b\<rparr>\<rparr>\<rparr>
      else w)"

text \<open>\<open>a || b || c\<close> on strings that may be undefined: the first that is neither undefined nor empty.\<close>

fun first_truthy :: "string option list \<Rightarrow> string \<Rightarrow> string" where
  "first_truthy [] d = d"
| "first_truthy (None # rest) d = first_truthy rest d"
| "first_truthy (Some s # rest) d = (if s = [] then first_truthy rest d else s)"

text \<open>\<open>blockAd(element)\<close> of the page's security manager; \<open>n\<close> is the reference to the element.\<close>

definition blockAd :: "nat \<Rightarrow> string \<Rightarrow> nat \<Rightarrow> window \<Rightarrow> window" where
  "blockAd now here n w =
     (case document w n of
        None \<Rightarrow> w
      | Some e \<Rightarrow>
          let e1 = setAttribute ''data-umbra-blocked'' ''ad'' (set_style ''display'' ''none'' e);
              w1 = w\<lparr>document := (document w)(n \<mapsto> e1),
                     securityManager' := (securityManager' w)
                       \<lparr>blockedAds' := blockedAds' (securityManager' w) + 1\<rparr>\<rparr>
          in logSecurityEvent now here ''ad'' (first_truthy [e_src e1, e_href e1] ''inline ad'') w1)"

text \<open>What the loop of \<open>toggleAdBlocker\<close> does to one element of the document.\<close>

definition show_blocked_ad :: "element \<Rightarrow> element" where
  "show_blocked_ad e =
     (if isConnected e \<and> attributes e ''data-umbra-blocked'' = Some ''ad''
      then removeAttribute ''data-umbra-blocked'' (set_style ''display'' [] e)
      else e)"

text \<open>
  \<open>toggleAdBlocker\<close>. When the blocker is switched on the page is scanned again;
  \<open>scanCurrentPage\<close> is a parameter here.
\<close>

definition toggleAdBlocker :: "(window \<Rightarrow> window) \<Rightarrow> window \<Rightarrow> window" where
  "toggleAdBlocker scanCurrentPage w =
     (let w1 = w\<lparr>securityManager' := (securityManager' w)
                  \<lparr>adBlockEnabled' := \<not> adBlockEnabled' (securityManager' w)\<rparr>\<rparr>;
          w2 = saveSecuritySettings w1
      in if adBlockEnabled' (securityManager' w2) then scanCurrentPage w2
         else w2\<lparr>document := (\<lambda>n. map_option show_blocked_ad (document w2 n))\<rparr>)"

section \<open>A platform for the examples\<close>

text \<open>
  The examples need a platform to run on. \<open>example_platform\<close> follows the URL Standard and
  ECMAScript on a fragment of their inputs and answers \<open>None\<close> elsewhere: absolute
  \<open>http\<close> and \<open>https\<close> URLs written in lower case scheme, with a host of letters, digits,
  hyphens and dots that does not end in a dot or in a label that starts with a digit, no
  port and no credentials, and a rest of letters, digits and \<open>/ ? = & - _ %\<close>;
  percent-escapes of ASCII characters; patterns that are a plain word. The examples use it
  inside this fragment, and at the string \<open>http://\<close>, which has no host and is not a URL.
\<close>

definition host_chars :: string where
  "host_chars = ''abcdefghijklmnopqrstuvwxyz0123456789.-''"

definition rest_chars :: string where
  "rest_chars = ''abcdefghijklmnopqrstuvwxyzABCDEFGHIJKLMNOPQRSTUVWXYZ0123456789/?=&-_%''"

definition example_new_URL :: "string \<Rightarrow> URL option" where
  "example_new_URL s =
     (let scheme = (if startsWith s ''https://'' then ''https://''
                    else if startsWith s ''http://'' then ''http://'' else []);
          after = drop (length scheme) s;
          host = toLowerCase (takeWhile (\<lambda>c. c \<noteq> CHR ''/'' \<and> c \<noteq> CHR ''?'') after);
          rest = dropWhile (\<lambda>c. c \<noteq> CHR ''/'' \<and> c \<noteq> CHR ''?'') after
      in if scheme = [] \<or> host = [] \<or> \<not> list_all (\<lambda>c. c \<in> set host_chars) host
            \<or> \<not> list_all (\<lambda>c. c \<in> set rest_chars) rest
            \<or> last host = CHR ''.''
            \<or> (case last (split CHR ''.'' host) of [] \<Rightarrow> True | c # cs \<Rightarrow> c \<in> set ''0123456789'')
         then None
         else Some \<lparr>hostname = host,
                    href = scheme @ host @
                      (case rest of [] \<Rightarrow> ''/'' | c # cs \<Rightarrow>
                         if c = CHR ''/'' then rest else ''/'' @ rest)\<rparr>)"

definition hex_value :: "char \<Rightarrow> nat option" where
  "hex_value c =
     (if c \<in> set ''0123456789'' then Some (of_char c - 48)
      else if c \<in> set ''abcdef'' then Some (of_char c - 87)
      else if c \<in> set ''ABCDEF'' then Some (of_char c - 55)
      else None)"

fun example_decodeURIComponent :: "string \<Rightarrow> string option" where
  "example_decodeURIComponent [] = Some []"
| "example_decodeURIComponent (c # cs) =
     (if c = CHR ''%''
      then (case cs of
              a # b # rest \<Rightarrow>
                (case (hex_value a, hex_value b) of
                   (Some h, Some l) \<Rightarrow>
                     if 16 * h + l < 128
                     then map_option (\<lambda>r. char_of (16 * h + l) # r) (example_decodeURIComponent rest)
                     else None
                 | _ \<Rightarrow> None)
            | _ \<Rightarrow> None)
      else map_option (\<lambda>r. c # r) (example_decodeURIComponent cs))"

definition word_chars :: string where
  "word_chars = ''abcdefghijklmnopqrstuvwxyzABCDEFGHIJKLMNOPQRSTUVWXYZ0123456789''"

definition example_new_RegExp_i :: "string \<Rightarrow> RegExp option" where
  "example_new_RegExp_i p =
     (if p \<noteq> [] \<and> list_all (\<lambda>c. c \<in> set word_chars) p then Some (rx_i (Str p)) else None)"

definition hex_digit :: "nat \<Rightarrow> char" where
  "hex_digit n = (''0123456789ABCDEF'' ! (n mod 16))"

definition example_encodeURIComponent :: "string \<Rightarrow> string" where
  "example_encodeURIComponent s =
     concat (map (\<lambda>c. if c \<in> set word_chars \<or> c \<in> set ''-_.!~*()'' \<or> c = CHR 0x27 then [c]
                       else [CHR ''%'', hex_digit (of_char c div 16), hex_digit (of_char c)]) s)"

definition example_platform :: platform where
  "example_platform =
     \<lparr>new_URL = example_new_URL,
      decodeURIComponent = example_decodeURIComponent,
      new_RegExp_i = example_new_RegExp_i,
      encodeURIComponent = example_encodeURIComponent\<rparr>"

definition example_page :: page where
  "example_page =
     \<lparr>addressBar = Some [], siteFrame = Some \<lparr>src = [], frame_hidden = True\<rparr>,
      startPage = Some False, blockedOverlay = None, viewport = True,
      loadingOverlay = Some True, privacyIndicator = False, frameDoc = Map.empty\<rparr>"

section \<open>Auxiliary notions for the statements\<close>

text \<open>What \<open>checkUrl\<close> reads of the browser state: the threat database and the rules.\<close>

definition rule_base :: "umbra \<Rightarrow> (string \<rightharpoonup> threat) \<times> threat list" where
  "rule_base u = (threatDatabase (securityManager u), securityRules (securityManager u))"

text \<open>
  A state of the browser for the examples: privacy mode on, the default settings, the
  security manager and the ad blocker as their constructors build them, the callbacks in
  the order of their registration, no notification, no timer, and an empty store. It is
  a state that the examples start from, not the result of running the constructor.
\<close>

definition example_browser :: umbra where
  "example_browser =
     \<lparr>isPrivacyMode = True, currentTab = None,
      settings = default_settings,
      securityManager = SecurityManager_new,
      adBlocker = AdBlocker_new empty_storage,
      eventListeners =
        \<lparr>beforeNavigate =
           [SecurityManager_handleBeforeNavigation_cb, AdBlocker_handleBeforeNavigation_cb,
            UmbraBrowser_handleBeforeNavigation_cb],
         navigate_cbs = [UmbraBrowser_handleNavigation_cb],
         securityThreat = [UmbraBrowser_handleSecurityThreat_cb],
         siteBlocked = [UmbraBrowser_handleSiteBlocked_cb],
         privacyModeToggle = [UmbraBrowser_handlePrivacyModeToggle_cb]\<rparr>,
      notifications = [], localStorage = empty_storage,
      dom = example_page\<lparr>privacyIndicator := True\<rparr>, timers = []\<rparr>"

text \<open>
  A sequence of calls of \<open>logSecurityEvent\<close>, each with the clock and the location that it
  reads and with its arguments, and the event that a call builds. The same for
  \<open>logBlockedRequest\<close>.
\<close>

definition event_of :: "nat \<times> string \<times> string \<times> string \<Rightarrow> security_event" where
  "event_of c =
     (case c of (now, here, t, d) \<Rightarrow>
        \<lparr>ev_type = t, details = d, ev_timestamp = now, ev_url = here\<rparr>)"

definition logSecurityEvents :: "(nat \<times> string \<times> string \<times> string) list \<Rightarrow> window \<Rightarrow> window" where
  "logSecurityEvents cs w =
     foldl (\<lambda>v c. case c of (now, here, t, d) \<Rightarrow> logSecurityEvent now here t d v) w cs"

definition request_of :: "nat \<times> string \<times> string \<Rightarrow> blocked_request" where
  "request_of c =
     (case c of (now, t, a) \<Rightarrow> \<lparr>req_type = t, req_url = a, req_timestamp = now\<rparr>)"

definition logBlockedRequests :: "(nat \<times> string \<times> string) list \<Rightarrow> window \<Rightarrow> window" where
  "logBlockedRequests cs w =
     foldl (\<lambda>v c. case c of (now, t, a) \<Rightarrow> logBlockedRequest now t a v) w cs"

text \<open>An image element, a page of the scripts with that element, in normal and in private mode.\<close>

definition example_element :: element where
  "example_element =
     \<lparr>tagName = ''IMG'',
      attributes = [''src'' \<mapsto> ''https://doubleclick.net/ad''],
      style = (\<lambda>p. []),
      e_src = Some ''https://doubleclick.net/ad'', e_href = None,
      textContent = [], isConnected = True\<rparr>"

definition example_window :: window where
  "example_window =
     \<lparr>umbraBrowser = Some \<lparr>currentTheme = ''light-theme'', isPrivateMode = False,
                            adBlockerEnabled = True, browser_trackingProtection = True\<rparr>,
      privacyManager = \<lparr>trackingProtection = True, fingerprintingProtection = True,
                        cookieBlocking = True, httpsUpgrade = True, privateMode = False\<rparr>,
      securityManager' = \<lparr>adBlockEnabled' = True, malwareProtection = True,
                          phishingProtection = True, safeBrowsing = True,
                          blockedAds' = 0, blockedMalware = 0, blockedPhishing = 0\<rparr>,
      localStorage' = empty_storage,
      document = [0 \<mapsto> example_element]\<rparr>"

definition private_window :: window where
  "private_window =
     example_window
       \<lparr>umbraBrowser := map_option (\<lambda>b. b\<lparr>isPrivateMode := True\<rparr>) (umbraBrowser example_window),
        privacyManager := (privacyManager example_window)\<lparr>privateMode := True\<rparr>\<rparr>"

text \<open>The browser of js/core with one element in the site frame that the ad blocker has hidden.\<close>

definition hidden_ad_browser :: umbra where
  "hidden_ad_browser =
     example_browser\<lparr>dom := (dom example_browser)\<lparr>frameDoc := [0 \<mapsto> hideElement example_element]\<rparr>\<rparr>"

text \<open>
  The domain spoofing heuristic in the words of the specification: the variants of a
  legitimate domain are the domain with letters \<open>o\<close> written as \<open>0\<close>, with letters \<open>i\<close>
  as \<open>1\<close>, with letters \<open>l\<close> as \<open>1\<close>, with letters \<open>e\<close> as \<open>3\<close> (some or all
  occurrences of the letter, which is the widest reading), with a hyphen inserted, and
  with the top-level domain swapped to \<open>.net\<close> and to \<open>.org\<close>; a host name is a spoof when
  it is a variant of a legitimate domain and is not that domain.
\<close>

fun replace_some :: "char \<Rightarrow> char \<Rightarrow> string \<Rightarrow> string list" where
  "replace_some a b [] = [[]]"
| "replace_some a b (c # cs) =
     (if c = a
      then map ((#) b) (replace_some a b cs) @ map ((#) c) (replace_some a b cs)
      else map ((#) c) (replace_some a b cs))"

definition spec_variants :: "string \<Rightarrow> string list" where
  "spec_variants legit =
     replace_some CHR ''o'' CHR ''0'' legit @
     replace_some CHR ''i'' CHR ''1'' legit @
     replace_some CHR ''l'' CHR ''1'' legit @
     replace_some CHR ''e'' CHR ''3'' legit @
     [replace_first ''.'' ''-'' legit @ ''.com'',
      replace_first ''.com'' ''.net'' legit,
      replace_first ''.com'' ''.org'' legit]"

definition spec_spoofing :: "string \<Rightarrow> bool" where
  "spec_spoofing host =
     list_ex (\<lambda>legit. host \<in> set (spec_variants legit) \<and> host \<noteq> legit) legitimateDomains"

text \<open>
  A rule whose pattern is \<open>/evil/g\<close>, and the security manager as constructed, with that
  rule added by \<open>addSecurityRule\<close>.
\<close>

definition global_rule :: rule_object where
  "global_rule =
     \<lparr>domain' = None,
      pattern' = Some \<lparr>source = Str ''evil'', ignoreCase = False, global = True, sticky = False,
                       lastIndex = 0\<rparr>,
      type' = ''custom'', description' = ''custom rule''\<rparr>"

definition manager_with_global_rule :: stateful_manager where
  "manager_with_global_rule = addSecurityRule' global_rule (stateful_of SecurityManager_new)"

section \<open>Properties of the string methods\<close>

lemma replace_g_absent: "a \<notin> set s \<Longrightarrow> replace_g a b s = s"
  by (induction s) (auto simp: replace_g_def)

section \<open>The domain spoofing stage\<close>

lemma lacking_is_own_pattern:
  assumes "CHR ''o'' \<notin> set host \<or> CHR ''i'' \<notin> set host \<or> CHR ''l'' \<notin> set host \<or> CHR ''e'' \<notin> set host"
  shows "host \<in> set (spoofingPatterns host legit)"
  using assms by (auto simp: spoofingPatterns_def replace_g_absent)

lemma checkDomainSpoofing_lacking:
  assumes "CHR ''o'' \<notin> set host \<or> CHR ''i'' \<notin> set host \<or> CHR ''l'' \<notin> set host \<or> CHR ''e'' \<notin> set host"
  shows "checkDomainSpoofing host =
     Some (plain_threat ''spoofing''
       ((if host = ''google.com'' then ''facebook.com'' else ''google.com'') @ '' domain spoofing''))"
proof (cases "host = ''google.com''")
  case True
  have "host \<in> set (spoofingPatterns host ''facebook.com'')"
    using assms by (rule lacking_is_own_pattern)
  with True show ?thesis
    by (simp add: checkDomainSpoofing_def legitimateDomains_def)
next
  case False
  have "host \<in> set (spoofingPatterns host ''google.com'')"
    using assms by (rule lacking_is_own_pattern)
  with False show ?thesis
    by (simp add: checkDomainSpoofing_def legitimateDomains_def)
qed

lemma github_URL:
  "example_new_URL ''https://github.com/'' =
     Some \<lparr>hostname = ''github.com'', href = ''https://github.com/''\<rparr>"
  by code_simp

lemma github_rules:
  "checkUrl_rules (securityRules SecurityManager_new) (toLowerCase ''https://github.com/'') = Inr None"
  by code_simp

lemma github_database: "threatDatabase SecurityManager_new ''github.com'' = None"
  by code_simp

text \<open>
  C10: \<open>checkDomainSpoofing\<close> returns a spoofing threat for every host name that lacks one of
  the letters \<open>o\<close>, \<open>i\<close>, \<open>l\<close>, \<open>e\<close>: the substitution of that letter leaves the host name as
  it is, so the host name is among its own patterns, and it differs from the first or the
  second legitimate domain. \<open>checkUrl\<close> therefore returns that spoofing threat for every
  URL with such a host name which is not in the threat database and which no rule matches.
\<close>

theorem spoofing_of_hosts_lacking_a_letter:
  assumes "CHR ''o'' \<notin> set host \<or> CHR ''i'' \<notin> set host \<or> CHR ''l'' \<notin> set host \<or> CHR ''e'' \<notin> set host"
  shows "checkDomainSpoofing host =
           Some (plain_threat ''spoofing''
             ((if host = ''google.com'' then ''facebook.com'' else ''google.com'') @ '' domain spoofing''))
         \<and> (\<forall>js sm u urlObj.
               new_URL js u = Some urlObj \<and> toLowerCase (hostname urlObj) = host \<and>
               threatDatabase sm host = None \<and>
               checkUrl_rules (securityRules sm) (toLowerCase u) = Inr None
               \<longrightarrow> checkUrl js sm u =
                     Some (plain_threat ''spoofing''
                       ((if host = ''google.com'' then ''facebook.com'' else ''google.com'')
                        @ '' domain spoofing'')))"
  using checkDomainSpoofing_lacking [OF assms]
  by (auto simp: checkUrl_def checkUrl_try_def Let_def)

theorem spoofing_of_hosts_lacking_a_letter_witness:
  "CHR ''l'' \<notin> set ''github.com''
   \<and> checkDomainSpoofing ''github.com'' = Some (plain_threat ''spoofing'' ''google.com domain spoofing'')
   \<and> checkUrl example_platform SecurityManager_new ''https://github.com/''
       = Some (plain_threat ''spoofing'' ''google.com domain spoofing'')"
proof -
  have h: "CHR ''o'' \<notin> set ''github.com'' \<or> CHR ''i'' \<notin> set ''github.com''
        \<or> CHR ''l'' \<notin> set ''github.com'' \<or> CHR ''e'' \<notin> set ''github.com''" by simp
  have lc: "toLowerCase ''github.com'' = ''github.com''" by code_simp
  from spoofing_of_hosts_lacking_a_letter [OF h]
  show ?thesis
    using github_URL github_rules github_database lc by (simp add: example_platform_def)
qed

section \<open>What a verdict depends on\<close>

lemma foldl_frame:
  assumes "\<And>v x. g (f v x) = g v"
  shows "g (foldl f u xs) = g u"
  using assms by (induction xs arbitrary: u) auto

lemma rule_base_notify: "rule_base (notify m t u) = rule_base u"
  by (simp add: rule_base_def notify_def)

lemma rule_base_showBlockedPage: "rule_base (showBlockedPage a b c u) = rule_base u"
  by (simp add: rule_base_def showBlockedPage_def)

lemma rule_base_emit_siteBlocked: "rule_base (snd (emit_siteBlocked d u)) = rule_base u"
  unfolding emit_siteBlocked_def snd_conv
  by (rule foldl_frame)
     (simp add: UmbraBrowser_handleSiteBlocked_def rule_base_showBlockedPage
           split: siteBlocked_callback.split prod.split)

lemma rule_base_UmbraBrowser_handleSecurityThreat:
  "rule_base (UmbraBrowser_handleSecurityThreat d u) = rule_base u"
  by (simp add: UmbraBrowser_handleSecurityThreat_def rule_base_emit_siteBlocked rule_base_notify
           split: prod.split)

lemma rule_base_emit_securityThreat: "rule_base (snd (emit_securityThreat d u)) = rule_base u"
  unfolding emit_securityThreat_def snd_conv
  by (rule foldl_frame)
     (simp add: rule_base_UmbraBrowser_handleSecurityThreat split: securityThreat_callback.split)

lemma rule_base_handleSecurityThreat: "rule_base (handleSecurityThreat now a thr u) = rule_base u"
proof -
  have "rule_base (u\<lparr>securityManager := logThreat now a thr ((securityManager u)
          \<lparr>blockedSites := Set_add a (blockedSites (securityManager u))\<rparr>)\<rparr>) = rule_base u"
    by (simp add: rule_base_def logThreat_def)
  then show ?thesis
    by (simp add: handleSecurityThreat_def Let_def rule_base_notify rule_base_emit_securityThreat)
qed

lemma rule_base_SecurityManager_handleBeforeNavigation:
  "rule_base (snd (SecurityManager_handleBeforeNavigation js now d u)) = rule_base u"
  by (simp add: SecurityManager_handleBeforeNavigation_def rule_base_handleSecurityThreat
           split: prod.split option.split)

lemma rule_base_AdBlocker_handleBeforeNavigation:
  "rule_base (snd (AdBlocker_handleBeforeNavigation js d u)) = rule_base u"
  by (simp add: AdBlocker_handleBeforeNavigation_def rule_base_def split: prod.split)

lemma rule_base_UmbraBrowser_handleBeforeNavigation:
  "rule_base (snd (UmbraBrowser_handleBeforeNavigation js d u)) = rule_base u"
  by (simp add: UmbraBrowser_handleBeforeNavigation_def rule_base_emit_securityThreat
           split: prod.split option.split)

lemma rule_base_call_beforeNavigate:
  "rule_base (snd (call_beforeNavigate js now cb d u)) = rule_base u"
  by (cases cb)
     (simp_all add: rule_base_SecurityManager_handleBeforeNavigation
        rule_base_AdBlocker_handleBeforeNavigation rule_base_UmbraBrowser_handleBeforeNavigation)

lemma rule_base_emit_beforeNavigate:
  "rule_base (snd (emit_beforeNavigate js now d u)) = rule_base u"
  unfolding emit_beforeNavigate_def snd_conv
  by (rule foldl_frame) (rule rule_base_call_beforeNavigate)

lemma rule_base_setTimeout: "rule_base (setTimeout t d u) = rule_base u"
  by (simp add: rule_base_def setTimeout_def)

lemma rule_base_showLoading: "rule_base (showLoading u) = rule_base u"
  by (simp add: rule_base_def showLoading_def)

lemma rule_base_navigate: "rule_base (navigate js now a u) = rule_base u"
  by (simp add: navigate_def Let_def rule_base_emit_beforeNavigate rule_base_setTimeout
        rule_base_showLoading)

lemma checkUrl_reads:
  assumes "threatDatabase sm' = threatDatabase sm" and "securityRules sm' = securityRules sm"
  shows "checkUrl js sm' a = checkUrl js sm a"
  by (simp add: checkUrl_def checkUrl_try_def assms cong: option.case_cong sum.case_cong)

lemma checkUrl_reads_rule_base:
  assumes "rule_base u' = rule_base u"
  shows "checkUrl js (securityManager u') a = checkUrl js (securityManager u) a"
proof (rule checkUrl_reads)
  show "threatDatabase (securityManager u') = threatDatabase (securityManager u)"
    using assms by (simp add: rule_base_def)
  show "securityRules (securityManager u') = securityRules (securityManager u)"
    using assms by (simp add: rule_base_def)
qed

text \<open>
  Neither a navigation nor the navigation gate of the security manager, with the logging
  that they do, changes the verdict of a later call of \<open>checkUrl\<close>.
\<close>

lemma checkUrl_after_navigation:
  "checkUrl js (securityManager (navigate js now b u)) a = checkUrl js (securityManager u) a
   \<and> checkUrl js
        (securityManager (snd (SecurityManager_handleBeforeNavigation js now (b, tab) u))) a
       = checkUrl js (securityManager u) a"
  using checkUrl_reads_rule_base [OF rule_base_navigate]
    checkUrl_reads_rule_base [OF rule_base_SecurityManager_handleBeforeNavigation]
  by simp

section \<open>Input that is not a URL\<close>

lemma checkUrl_parse_failure:
  "new_URL js a = None \<Longrightarrow> checkUrl js sm a = Some invalid_threat"
  by (simp add: checkUrl_def checkUrl_try_def)

lemma shouldBlockUrl_parse_failure:
  "new_URL js a = None \<Longrightarrow> shouldBlockUrl js ab a = False"
  by (simp add: shouldBlockUrl_def)

lemma no_host_is_no_URL: "new_URL example_platform ''http://'' = None"
  by code_simp

text \<open>
  C5, as amended: for every string that the URL parser rejects, \<open>checkUrl\<close> returns the
  verdict of type \<open>invalid\<close> (never \<open>null\<close>), and the navigation gates of the security
  manager and of the browser return \<open>false\<close> for it while security is enabled; the ad
  classifier \<open>shouldBlockUrl\<close> returns \<open>false\<close> (not blocked) for such a string.
\<close>

theorem invalid_url_verdict:
  assumes "new_URL js a = None"
  shows "checkUrl js sm a = Some invalid_threat \<and> type invalid_threat = ''invalid''
         \<and> (isEnabled (securityManager u) \<longrightarrow>
              fst (SecurityManager_handleBeforeNavigation js now (a, tab) u) = False)
         \<and> (securityEnabled (settings u) \<longrightarrow>
              fst (UmbraBrowser_handleBeforeNavigation js (a, tab) u) = False)
         \<and> shouldBlockUrl js ab a = False"
  using checkUrl_parse_failure [OF assms] shouldBlockUrl_parse_failure [OF assms]
  by (simp add: SecurityManager_handleBeforeNavigation_def
        UmbraBrowser_handleBeforeNavigation_def invalid_threat_def plain_threat_def)

theorem invalid_url_verdict_witness:
  "new_URL example_platform ''http://'' = None
   \<and> checkUrl example_platform SecurityManager_new ''http://'' = Some invalid_threat
   \<and> fst (SecurityManager_handleBeforeNavigation example_platform ''2026-11-01''
            (''http://'', 1) example_browser) = False"
proof -
  have on: "isEnabled (securityManager example_browser)" by code_simp
  from invalid_url_verdict [OF no_host_is_no_URL, of SecurityManager_new example_browser]
  show ?thesis using no_host_is_no_URL on by simp
qed

text \<open>
  The claim as stated fails for the ad classifier: \<open>http://\<close> is not a URL, and
  \<open>shouldBlockUrl\<close> answers that it is not to be blocked.
\<close>

theorem invalid_url_not_blocked_as_ad:
  "new_URL example_platform ''http://'' = None
   \<and> shouldBlockUrl example_platform (adBlocker example_browser) ''http://'' = False"
  using no_host_is_no_URL by (simp add: shouldBlockUrl_parse_failure)

section \<open>The whitelist\<close>

lemma shouldBlockUrl_whitelisted:
  assumes "new_URL js a = Some urlObj" and "toLowerCase (hostname urlObj) \<in> set (whitelist ab)"
  shows "shouldBlockUrl js ab a = False"
  using assms by (simp add: shouldBlockUrl_def Let_def)

lemma rule_base_addToWhitelist: "rule_base (addToWhitelist d u) = rule_base u"
  by (simp add: rule_base_def addToWhitelist_def saveWhitelist_def notify_def)

text \<open>
  C2, as amended: for every URL whose host name is in the whitelist of the ad blocker,
  \<open>shouldBlockUrl\<close> returns \<open>false\<close>, whatever the filter lists and the custom filters
  hold. \<open>checkUrl\<close> does not read that whitelist: adding a domain to it changes no verdict
  of \<open>checkUrl\<close>.
\<close>

theorem whitelist_precedence:
  assumes "new_URL js a = Some urlObj" and "toLowerCase (hostname urlObj) \<in> set (whitelist ab)"
  shows "shouldBlockUrl js ab a = False
         \<and> checkUrl js (securityManager (addToWhitelist d u)) b = checkUrl js (securityManager u) b"
  using shouldBlockUrl_whitelisted [OF assms] checkUrl_reads_rule_base [OF rule_base_addToWhitelist]
  by simp

lemma doubleclick_URL:
  "new_URL example_platform ''https://doubleclick.net/ad'' =
     Some \<lparr>hostname = ''doubleclick.net'', href = ''https://doubleclick.net/ad''\<rparr>"
  by code_simp

lemma doubleclick_whitelisted:
  "toLowerCase ''doubleclick.net'' \<in>
     set (whitelist (adBlocker (addToWhitelist ''doubleclick.net'' example_browser)))"
  by code_simp

lemma doubleclick_blocked:
  "shouldBlockUrl example_platform (adBlocker example_browser) ''https://doubleclick.net/ad''"
  by code_simp

theorem whitelist_precedence_witness:
  "shouldBlockUrl example_platform (adBlocker example_browser) ''https://doubleclick.net/ad''
   \<and> shouldBlockUrl example_platform
        (adBlocker (addToWhitelist ''doubleclick.net'' example_browser))
        ''https://doubleclick.net/ad'' = False"
proof -
  have wl: "toLowerCase (hostname \<lparr>hostname = ''doubleclick.net'', href = ''https://doubleclick.net/ad''\<rparr>)
      \<in> set (whitelist (adBlocker (addToWhitelist ''doubleclick.net'' example_browser)))"
    using doubleclick_whitelisted by simp
  from whitelist_precedence [OF doubleclick_URL wl] doubleclick_blocked
  show ?thesis by simp
qed

text \<open>
  The claim as stated fails for the threat database: a whitelisted host that is in the
  database is still classified as its threat by \<open>checkUrl\<close>.
\<close>

theorem whitelisted_host_still_a_threat:
  "''secure-paypal-verification.com'' \<in>
     set (whitelist (adBlocker (addToWhitelist ''secure-paypal-verification.com'' example_browser)))
   \<and> shouldBlockUrl example_platform
        (adBlocker (addToWhitelist ''secure-paypal-verification.com'' example_browser))
        ''https://secure-paypal-verification.com/login'' = False
   \<and> checkUrl example_platform
        (securityManager (addToWhitelist ''secure-paypal-verification.com'' example_browser))
        ''https://secure-paypal-verification.com/login''
      = Some (domain_threat ''secure-paypal-verification.com'' ''phishing'' ''PayPal phishing site'')"
  by code_simp

section \<open>Custom filters\<close>

text \<open>
  C7: for every pattern that does not compile, \<open>addCustomFilter\<close> throws (the
  \<open>SyntaxError\<close> of the \<open>RegExp\<close> constructor) and leaves the browser state as it was: the
  list of custom filters is unchanged and nothing is written to the store.
\<close>

theorem addCustomFilter_invalid_pattern:
  assumes "new_RegExp_i js pat = None"
  shows "addCustomFilter js pat t d u = (Inl SyntaxError, u)
         \<and> customFilters (adBlocker (snd (addCustomFilter js pat t d u))) = customFilters (adBlocker u)
         \<and> localStorage (snd (addCustomFilter js pat t d u)) = localStorage u"
  using assms by (simp add: addCustomFilter_def)

lemma open_paren_invalid: "new_RegExp_i example_platform ''('' = None"
  by code_simp

theorem addCustomFilter_invalid_pattern_witness:
  "new_RegExp_i example_platform ''('' = None
   \<and> addCustomFilter example_platform ''('' ''url'' ''mine'' example_browser
       = (Inl SyntaxError, example_browser)"
  using addCustomFilter_invalid_pattern [OF open_paren_invalid, of "''url''" "''mine''" example_browser]
    open_paren_invalid
  by simp

lemma addCustomFilter_valid_pattern:
  "customFilters (adBlocker (snd (addCustomFilter example_platform ''tracker'' ''url'' ''mine''
       example_browser)))
     = [\<lparr>f_pattern = RegExp_pattern (rx_i (Str ''tracker'')), f_type = ''url'',
         f_description = ''mine'', custom = True\<rparr>]
   \<and> umbra_custom_filters (localStorage (snd (addCustomFilter example_platform ''tracker'' ''url''
       ''mine'' example_browser)))
     = Some [\<lparr>f_pattern = Object_pattern, f_type = ''url'', f_description = ''mine'',
              custom = True\<rparr>]"
  by code_simp

section \<open>The event logs\<close>

lemma keep_last_append:
  "drop (length (drop (length xs - k) xs @ ys) - k) (drop (length xs - k) xs @ ys)
     = drop (length (xs @ ys) - k) (xs @ ys)"
  by (cases "length xs \<le> k") (auto simp: add.commute)

lemma logSecurityEvent_store:
  assumes "may_persist w"
  shows "umbraSecurityLog (localStorage' (logSecurityEvent now here t d w)) =
     Some (drop (length ((case umbraSecurityLog (localStorage' w) of None \<Rightarrow> [] | Some l \<Rightarrow> l)
                    @ [event_of (now, here, t, d)]) - 1000)
            ((case umbraSecurityLog (localStorage' w) of None \<Rightarrow> [] | Some l \<Rightarrow> l)
               @ [event_of (now, here, t, d)]))"
  using assms by (simp add: logSecurityEvent_def Let_def event_of_def)

lemma logSecurityEvent_may_persist:
  "may_persist (logSecurityEvent now here t d w) = may_persist w"
  by (simp add: logSecurityEvent_def Let_def may_persist_def)

lemma logSecurityEvents_snoc:
  "logSecurityEvents (cs @ [c]) w =
     (case c of (now, here, t, d) \<Rightarrow> logSecurityEvent now here t d (logSecurityEvents cs w))"
  by (simp add: logSecurityEvents_def)

lemma logSecurityEvents_may_persist: "may_persist (logSecurityEvents cs w) = may_persist w"
  by (induction cs rule: rev_induct)
     (simp_all add: logSecurityEvents_snoc logSecurityEvent_may_persist split: prod.split,
      simp add: logSecurityEvents_def)

lemma logSecurityEvents_store:
  assumes "may_persist w" and "cs \<noteq> []"
  shows "umbraSecurityLog (localStorage' (logSecurityEvents cs w)) =
     Some (drop (length ((case umbraSecurityLog (localStorage' w) of None \<Rightarrow> [] | Some l \<Rightarrow> l)
                    @ map event_of cs) - 1000)
            ((case umbraSecurityLog (localStorage' w) of None \<Rightarrow> [] | Some l \<Rightarrow> l)
               @ map event_of cs))"
  using assms(2)
proof (induction cs rule: rev_induct)
  case Nil
  then show ?case by simp
next
  case (snoc c cs)
  obtain now here t d where c: "c = (now, here, t, d)" by (cases c) auto
  let ?l0 = "case umbraSecurityLog (localStorage' w) of None \<Rightarrow> [] | Some l \<Rightarrow> l"
  have mp: "may_persist (logSecurityEvents cs w)"
    using assms(1) by (simp add: logSecurityEvents_may_persist)
  show ?case
  proof (cases "cs = []")
    case True
    then show ?thesis
      using logSecurityEvent_store [OF assms(1), of now here t d]
      by (simp add: c logSecurityEvents_def)
  next
    case False
    from snoc.IH [OF False]
    have "umbraSecurityLog (localStorage' (logSecurityEvents cs w)) =
            Some (drop (length (?l0 @ map event_of cs) - 1000) (?l0 @ map event_of cs))" .
    with logSecurityEvent_store [OF mp, of now here t d]
    have "umbraSecurityLog (localStorage' (logSecurityEvents (cs @ [c]) w)) =
            Some (drop (length (drop (length (?l0 @ map event_of cs) - 1000) (?l0 @ map event_of cs)
                             @ [event_of c]) - 1000)
                   (drop (length (?l0 @ map event_of cs) - 1000) (?l0 @ map event_of cs)
                      @ [event_of c]))"
      by (simp add: logSecurityEvents_snoc c)
    also have "\<dots> = Some (drop (length ((?l0 @ map event_of cs) @ [event_of c]) - 1000)
                           ((?l0 @ map event_of cs) @ [event_of c]))"
      by (simp only: keep_last_append)
    finally show ?thesis by simp
  qed
qed

lemma logSecurityEvents_private:
  assumes "\<not> may_persist w"
  shows "logSecurityEvents cs w = w"
proof (induction cs rule: rev_induct)
  case Nil
  then show ?case by (simp add: logSecurityEvents_def)
next
  case (snoc c cs)
  then show ?case
    using assms by (simp add: logSecurityEvents_snoc logSecurityEvent_def Let_def split: prod.split)
qed


lemma logBlockedRequest_store:
  assumes "\<not> privateMode (privacyManager w)"
  shows "umbraBlockedRequests (localStorage' (logBlockedRequest now t a w)) =
     Some (drop (length ((case umbraBlockedRequests (localStorage' w) of None \<Rightarrow> [] | Some l \<Rightarrow> l)
                    @ [request_of (now, t, a)]) - 100)
            ((case umbraBlockedRequests (localStorage' w) of None \<Rightarrow> [] | Some l \<Rightarrow> l)
               @ [request_of (now, t, a)]))"
  using assms by (simp add: logBlockedRequest_def Let_def request_of_def)

lemma logBlockedRequest_privateMode:
  "privateMode (privacyManager (logBlockedRequest now t a w)) = privateMode (privacyManager w)"
  by (simp add: logBlockedRequest_def Let_def)

lemma logBlockedRequests_snoc:
  "logBlockedRequests (cs @ [c]) w =
     (case c of (now, t, a) \<Rightarrow> logBlockedRequest now t a (logBlockedRequests cs w))"
  by (simp add: logBlockedRequests_def)

lemma logBlockedRequests_privateMode:
  "privateMode (privacyManager (logBlockedRequests cs w)) = privateMode (privacyManager w)"
  by (induction cs rule: rev_induct)
     (simp_all add: logBlockedRequests_snoc logBlockedRequest_privateMode split: prod.split,
      simp add: logBlockedRequests_def)

lemma logBlockedRequests_store:
  assumes "\<not> privateMode (privacyManager w)" and "cs \<noteq> []"
  shows "umbraBlockedRequests (localStorage' (logBlockedRequests cs w)) =
     Some (drop (length ((case umbraBlockedRequests (localStorage' w) of None \<Rightarrow> [] | Some l \<Rightarrow> l)
                    @ map request_of cs) - 100)
            ((case umbraBlockedRequests (localStorage' w) of None \<Rightarrow> [] | Some l \<Rightarrow> l)
               @ map request_of cs))"
  using assms(2)
proof (induction cs rule: rev_induct)
  case Nil
  then show ?case by simp
next
  case (snoc c cs)
  obtain now t a where c: "c = (now, t, a)" by (cases c) auto
  let ?l0 = "case umbraBlockedRequests (localStorage' w) of None \<Rightarrow> [] | Some l \<Rightarrow> l"
  have mp: "\<not> privateMode (privacyManager (logBlockedRequests cs w))"
    using assms(1) by (simp add: logBlockedRequests_privateMode)
  show ?case
  proof (cases "cs = []")
    case True
    then show ?thesis
      using logBlockedRequest_store [OF assms(1), of now t a]
      by (simp add: c logBlockedRequests_def)
  next
    case False
    from snoc.IH [OF False]
    have "umbraBlockedRequests (localStorage' (logBlockedRequests cs w)) =
            Some (drop (length (?l0 @ map request_of cs) - 100) (?l0 @ map request_of cs))" .
    with logBlockedRequest_store [OF mp, of now t a]
    have "umbraBlockedRequests (localStorage' (logBlockedRequests (cs @ [c]) w)) =
            Some (drop (length (drop (length (?l0 @ map request_of cs) - 100) (?l0 @ map request_of cs)
                             @ [request_of c]) - 100)
                   (drop (length (?l0 @ map request_of cs) - 100) (?l0 @ map request_of cs)
                      @ [request_of c]))"
      by (simp add: logBlockedRequests_snoc c)
    also have "\<dots> = Some (drop (length ((?l0 @ map request_of cs) @ [request_of c]) - 100)
                           ((?l0 @ map request_of cs) @ [request_of c]))"
      by (simp only: keep_last_append)
    finally show ?thesis by simp
  qed
qed

lemma logBlockedRequests_private:
  assumes "privateMode (privacyManager w)"
  shows "logBlockedRequests cs w = w"
proof (induction cs rule: rev_induct)
  case Nil
  then show ?case by (simp add: logBlockedRequests_def)
next
  case (snoc c cs)
  then show ?case
    using assms by (simp add: logBlockedRequests_snoc logBlockedRequest_def Let_def split: prod.split)
qed

lemma last_of_both: "n \<le> length ys \<Longrightarrow> drop (length (xs @ ys) - n) (xs @ ys) = drop (length ys - n) ys"
  by simp

text \<open>
  C6, as amended: while private mode is off (\<open>window.umbraBrowser\<close> is set and its
  \<open>isPrivateMode\<close> is false, for the security log; \<open>privateMode\<close> of the privacy manager is
  false, for the log of blocked requests), after \<open>cap + k\<close> calls the stored log holds
  exactly \<open>cap\<close> entries, 1000 and 100, which are the entries of the last \<open>cap\<close> calls in
  the order of the calls, whatever the store held before. While private mode is on, the
  calls leave the stored log as it was.
\<close>

theorem logs_keep_the_latest:
  assumes "may_persist w" and "\<not> privateMode (privacyManager w)"
    and "length cs = 1000 + k" and "length rs = 100 + j"
  shows "umbraSecurityLog (localStorage' (logSecurityEvents cs w)) = Some (drop k (map event_of cs))
         \<and> length (drop k (map event_of cs)) = 1000
         \<and> umbraBlockedRequests (localStorage' (logBlockedRequests rs w))
             = Some (drop j (map request_of rs))
         \<and> length (drop j (map request_of rs)) = 100
         \<and> (\<forall>v. \<not> may_persist v \<longrightarrow> logSecurityEvents cs v = v)
         \<and> (\<forall>v. privateMode (privacyManager v) \<longrightarrow> logBlockedRequests rs v = v)"
proof -
  have cs: "cs \<noteq> []" and rs: "rs \<noteq> []" using assms(3,4) by auto
  have a: "umbraSecurityLog (localStorage' (logSecurityEvents cs w)) = Some (drop k (map event_of cs))"
    using logSecurityEvents_store [OF assms(1) cs] assms(3)
    by (simp only: last_of_both length_map) simp
  have b: "umbraBlockedRequests (localStorage' (logBlockedRequests rs w))
             = Some (drop j (map request_of rs))"
    using logBlockedRequests_store [OF assms(2) rs] assms(4)
    by (simp only: last_of_both length_map) simp
  show ?thesis
    using a b assms(3,4) by (simp add: logSecurityEvents_private logBlockedRequests_private)
qed

lemma example_window_persists: "may_persist example_window \<and> \<not> privateMode (privacyManager example_window)"
  by (simp add: may_persist_def example_window_def)

lemma private_window_does_not: "\<not> may_persist private_window \<and> privateMode (privacyManager private_window)"
  by (simp add: may_persist_def private_window_def example_window_def)

theorem logs_keep_the_latest_witness:
  "umbraSecurityLog (localStorage' (logSecurityEvents
       (replicate 1000 (1, ''https://example.org/'', ''ad'', ''first'')
          @ [(2, ''https://example.org/'', ''ad'', ''last'')]) example_window))
     = Some (replicate 999 (event_of (1, ''https://example.org/'', ''ad'', ''first''))
              @ [event_of (2, ''https://example.org/'', ''ad'', ''last'')])
   \<and> umbraBlockedRequests (localStorage' (logBlockedRequests
       (replicate 100 (1, ''tracking'', ''first'') @ [(2, ''tracking'', ''last'')]) example_window))
     = Some (replicate 99 (request_of (1, ''tracking'', ''first''))
              @ [request_of (2, ''tracking'', ''last'')])"
proof -
  have p: "may_persist example_window" and q: "\<not> privateMode (privacyManager example_window)"
    using example_window_persists by simp_all
  have l1: "length (replicate 1000 (1::nat, ''https://example.org/'', ''ad'', ''first'')
               @ [(2, ''https://example.org/'', ''ad'', ''last'')]) = 1000 + 1" by simp
  have l2: "length (replicate 100 (1::nat, ''tracking'', ''first'') @ [(2, ''tracking'', ''last'')])
               = 100 + 1" by simp
  have d1: "drop 1 (replicate 1000 x) = replicate 999 x" for x :: security_event by simp
  have d2: "drop 1 (replicate 100 x) = replicate 99 x" for x :: blocked_request by simp
  from logs_keep_the_latest [OF p q l1 l2] show ?thesis
    by (simp only: map_append map_replicate drop_append length_replicate d1 d2 list.map) simp
qed

text \<open>
  The claim as stated fails in private mode: 1001 and 101 calls on an empty store leave
  both logs absent.
\<close>

theorem private_log_stays_empty:
  "umbraSecurityLog (localStorage' (logSecurityEvents
       (replicate 1001 (1, ''https://example.org/'', ''ad'', ''inline ad'')) private_window)) = None
   \<and> umbraBlockedRequests (localStorage' (logBlockedRequests
       (replicate 101 (1, ''tracking'', ''https://tracker.example/'')) private_window)) = None"
proof -
  have "umbraSecurityLog (localStorage' private_window) = None"
    and "umbraBlockedRequests (localStorage' private_window) = None"
    by (simp_all add: private_window_def example_window_def empty_storage_def)
  then show ?thesis
    using private_window_does_not
    by (simp add: logSecurityEvents_private logBlockedRequests_private)
qed

section \<open>Private mode and the store\<close>

lemma logSecurityEvent_private: "\<not> may_persist w \<Longrightarrow> logSecurityEvent now here t d w = w"
  by (simp add: logSecurityEvent_def Let_def)

lemma logBlockedRequest_private:
  "privateMode (privacyManager w) \<Longrightarrow> logBlockedRequest now t a w = w"
  by (simp add: logBlockedRequest_def Let_def)

lemma blockAd_private:
  assumes "\<not> may_persist w" and "document w n = Some e"
  shows "localStorage' (blockAd now here n w) = localStorage' w
         \<and> blockedAds' (securityManager' (blockAd now here n w)) = blockedAds' (securityManager' w) + 1"
proof -
  let ?e1 = "setAttribute ''data-umbra-blocked'' ''ad'' (set_style ''display'' ''none'' e)"
  let ?w1 = "w\<lparr>document := (document w)(n \<mapsto> ?e1),
               securityManager' := (securityManager' w)
                 \<lparr>blockedAds' := blockedAds' (securityManager' w) + 1\<rparr>\<rparr>"
  have "\<not> may_persist ?w1" using assms(1) by (simp add: may_persist_def)
  then have "logSecurityEvent now here ''ad'' (first_truthy [e_src ?e1, e_href ?e1] ''inline ad'') ?w1 = ?w1"
    by (rule logSecurityEvent_private)
  then show ?thesis using assms(2) by (simp add: blockAd_def Let_def)
qed

lemma handlePrivacyModeToggle_store:
  "localStorage (handlePrivacyModeToggle enabled u) =
     (localStorage u)\<lparr>umbra_settings := Some ((settings u)\<lparr>privacyMode := enabled\<rparr>)\<rparr>"
  by (simp add: handlePrivacyModeToggle_def Let_def saveSettings_def notify_def
        showPrivacyIndicator_def hidePrivacyIndicator_def)

text \<open>
  C1, as amended: while private mode is on (\<open>isPrivateMode\<close> of \<open>window.umbraBrowser\<close>, which
  \<open>logSecurityEvent\<close>, \<open>saveSecuritySettings\<close> and the \<open>saveSettings\<close> of the page's browser
  test, and \<open>privateMode\<close> of the privacy manager, which \<open>logBlockedRequest\<close> and
  \<open>savePrivacySettings\<close> test), a call of any of these functions leaves the persistent
  store as it was, and \<open>blockAd\<close> still counts the blocked ad in memory.
  \<open>handlePrivacyModeToggle\<close> of the browser core writes the settings to the store on
  every call, also on one that enables privacy mode.
\<close>

theorem private_mode_writes_nothing:
  assumes "umbraBrowser w = Some b" and "isPrivateMode b" and "privateMode (privacyManager w)"
  shows "localStorage' (logSecurityEvent now here t d w) = localStorage' w
         \<and> localStorage' (logBlockedRequest now t a w) = localStorage' w
         \<and> localStorage' (saveSecuritySettings w) = localStorage' w
         \<and> localStorage' (savePrivacySettings w) = localStorage' w
         \<and> localStorage' (UmbraBrowser_saveSettings b w) = localStorage' w
         \<and> (document w n = Some e \<longrightarrow>
              localStorage' (blockAd now here n w) = localStorage' w
              \<and> blockedAds' (securityManager' (blockAd now here n w))
                  = blockedAds' (securityManager' w) + 1)
         \<and> umbra_settings (localStorage (handlePrivacyModeToggle True u))
             = Some ((settings u)\<lparr>privacyMode := True\<rparr>)"
proof -
  have np: "\<not> may_persist w" using assms(1,2) by (simp add: may_persist_def)
  show ?thesis
    using np assms(2,3) blockAd_private [OF np]
    by (simp add: logSecurityEvent_private logBlockedRequest_private saveSecuritySettings_def
          savePrivacySettings_def UmbraBrowser_saveSettings_def handlePrivacyModeToggle_store)
qed

theorem private_mode_writes_nothing_witness:
  "localStorage' (logSecurityEvent 1 ''https://example.org/'' ''ad'' ''inline ad'' private_window)
     = localStorage' private_window
   \<and> localStorage' (logBlockedRequest 1 ''ad'' ''https://tracker.example/'' private_window)
     = localStorage' private_window
   \<and> localStorage' (blockAd 1 ''https://example.org/'' 0 private_window) = localStorage' private_window
   \<and> blockedAds' (securityManager' (blockAd 1 ''https://example.org/'' 0 private_window)) = 1"
proof -
  have b: "umbraBrowser private_window =
      Some \<lparr>currentTheme = ''light-theme'', isPrivateMode = True,
            adBlockerEnabled = True, browser_trackingProtection = True\<rparr>"
    by (simp add: private_window_def example_window_def)
  have p: "isPrivateMode \<lparr>currentTheme = ''light-theme'', isPrivateMode = True,
            adBlockerEnabled = True, browser_trackingProtection = True\<rparr>" by simp
  have q: "privateMode (privacyManager private_window)"
    by (simp add: private_window_def example_window_def)
  have e: "document private_window 0 = Some example_element"
    by (simp add: private_window_def example_window_def)
  have z: "blockedAds' (securityManager' private_window) = 0"
    by (simp add: private_window_def example_window_def)
  from private_mode_writes_nothing [OF b p q, where now = 1 and here = "''https://example.org/''"
      and t = "''ad''" and d = "''inline ad''" and a = "''https://tracker.example/''"
      and n = 0 and e = example_element]
  have "localStorage' (logSecurityEvent 1 ''https://example.org/'' ''ad'' ''inline ad'' private_window)
          = localStorage' private_window
        \<and> localStorage' (logBlockedRequest 1 ''ad'' ''https://tracker.example/'' private_window)
          = localStorage' private_window
        \<and> localStorage' (blockAd 1 ''https://example.org/'' 0 private_window)
          = localStorage' private_window
        \<and> blockedAds' (securityManager' (blockAd 1 ''https://example.org/'' 0 private_window)) = 1"
    using e z by simp
  then show ?thesis by simp
qed

text \<open>
  The claim as stated fails for the settings of the browser core: the toggle that enables
  privacy mode, in a browser that is in privacy mode already, writes the settings to an
  empty store.
\<close>

theorem privacy_toggle_writes_settings:
  "isPrivacyMode example_browser
   \<and> isPrivacyMode (handlePrivacyModeToggle True example_browser)
   \<and> umbra_settings (localStorage example_browser) = None
   \<and> umbra_settings (localStorage (handlePrivacyModeToggle True example_browser))
       = Some default_settings"
  by code_simp

text \<open>
  The two flags are separate fields: \<open>logBlockedRequest\<close> persists while the browser's
  \<open>isPrivateMode\<close> is set, as long as \<open>privateMode\<close> of the privacy manager is not.
\<close>

lemma logBlockedRequest_reads_its_own_flag:
  assumes "umbraBrowser w = Some b" and "isPrivateMode b" and "\<not> privateMode (privacyManager w)"
  shows "umbraBlockedRequests (localStorage' (logBlockedRequest now t a w)) \<noteq> None"
  using assms by (simp add: logBlockedRequest_def Let_def)

section \<open>Hiding and showing ads\<close>

lemma document_logSecurityEvent: "document (logSecurityEvent now here t d w) = document w"
  by (simp add: logSecurityEvent_def Let_def)

lemma securityManager_logSecurityEvent:
  "securityManager' (logSecurityEvent now here t d w) = securityManager' w"
  by (simp add: logSecurityEvent_def Let_def)

lemma blockAd_document:
  assumes "document w n = Some e"
  shows "document (blockAd now here n w) =
           (document w)(n \<mapsto> setAttribute ''data-umbra-blocked'' ''ad'' (set_style ''display'' ''none'' e))"
  using assms by (simp add: blockAd_def Let_def document_logSecurityEvent)

lemma blockAd_adBlockEnabled:
  "adBlockEnabled' (securityManager' (blockAd now here n w)) = adBlockEnabled' (securityManager' w)"
  by (simp add: blockAd_def Let_def securityManager_logSecurityEvent split: option.split)

lemma toggleAdBlocker_off:
  assumes "adBlockEnabled' (securityManager' w)"
  shows "document (toggleAdBlocker scan w) = (\<lambda>n. map_option show_blocked_ad (document w n))
         \<and> \<not> adBlockEnabled' (securityManager' (toggleAdBlocker scan w))"
  using assms by (simp add: toggleAdBlocker_def Let_def saveSecuritySettings_def)

lemma show_blocked_ad_after_block:
  assumes "isConnected e"
  shows "show_blocked_ad (setAttribute ''data-umbra-blocked'' ''ad'' (set_style ''display'' ''none'' e))
           = removeAttribute ''data-umbra-blocked'' (set_style ''display'' [] e)"
  using assms
  by (simp add: show_blocked_ad_def setAttribute_def set_style_def removeAttribute_def)

text \<open>
  C8, as amended: \<open>blockAd\<close> of the page's security manager hides an element with
  \<open>display: none\<close> and the marker \<open>data-umbra-blocked = ad\<close> and leaves it attached, and
  \<open>toggleAdBlocker\<close>, when it switches the blocker off, clears \<open>display\<close> and removes the
  marker of the element, which is still attached. \<open>hideElement\<close> of the ad blocker of
  js/features hides an element with five style properties and the marker \<open>true\<close> and
  leaves it attached, but \<open>disable\<close> of that ad blocker only clears \<open>isEnabled\<close>: the page
  is as it was, hidden elements and markers included.
\<close>

theorem ads_are_hidden_not_removed:
  assumes "document w n = Some e" and "isConnected e" and "adBlockEnabled' (securityManager' w)"
  shows "document (blockAd now here n w) n
           = Some (setAttribute ''data-umbra-blocked'' ''ad'' (set_style ''display'' ''none'' e))
         \<and> (\<forall>e1. document (blockAd now here n w) n = Some e1 \<longrightarrow>
               style e1 ''display'' = ''none'' \<and> attributes e1 ''data-umbra-blocked'' = Some ''ad''
               \<and> isConnected e1)
         \<and> (\<forall>e2. document (toggleAdBlocker scan (blockAd now here n w)) n = Some e2 \<longrightarrow>
               style e2 ''display'' = [] \<and> attributes e2 ''data-umbra-blocked'' = None
               \<and> isConnected e2
               \<and> e2 = removeAttribute ''data-umbra-blocked'' (set_style ''display'' [] e))
         \<and> document (toggleAdBlocker scan (blockAd now here n w)) n \<noteq> None
         \<and> \<not> adBlockEnabled' (securityManager' (toggleAdBlocker scan (blockAd now here n w)))
         \<and> style (hideElement e) ''display'' = ''none''
         \<and> attributes (hideElement e) ''data-umbra-blocked'' = Some ''true''
         \<and> isConnected (hideElement e)
         \<and> dom (AdBlocker_disable u) = dom u"
proof -
  have on: "adBlockEnabled' (securityManager' (blockAd now here n w))"
    using assms(3) by (simp add: blockAd_adBlockEnabled)
  show ?thesis
    using assms(2) blockAd_document [OF assms(1)] toggleAdBlocker_off [OF on]
      show_blocked_ad_after_block [OF assms(2)]
    by (simp add: setAttribute_def set_style_def removeAttribute_def hideElement_def
          AdBlocker_disable_def notify_def)
qed

theorem ads_are_hidden_not_removed_witness:
  "map_option (\<lambda>e. (style e ''display'', attributes e ''data-umbra-blocked'', isConnected e))
     (document (blockAd 1 ''https://example.org/'' 0 example_window) 0)
     = Some (''none'', Some ''ad'', True)
   \<and> document (toggleAdBlocker id (blockAd 1 ''https://example.org/'' 0 example_window)) 0
       = Some (removeAttribute ''data-umbra-blocked'' (set_style ''display'' [] example_element))"
proof -
  have e: "document example_window 0 = Some example_element"
    by (simp add: example_window_def)
  have c: "isConnected example_element" by (simp add: example_element_def)
  have a: "adBlockEnabled' (securityManager' example_window)" by (simp add: example_window_def)
  from ads_are_hidden_not_removed [OF e c a, where now = 1 and here = "''https://example.org/''"
      and scan = id]
  show ?thesis using c by (auto simp: setAttribute_def set_style_def)
qed

text \<open>
  The claim as stated fails for the ad blocker of js/features: after \<open>disable\<close> the element
  that \<open>hideElement\<close> has hidden is still hidden and still carries the marker.
\<close>

theorem disable_leaves_ads_hidden:
  "ab_isEnabled (adBlocker (AdBlocker_disable hidden_ad_browser)) = False
   \<and> frameDoc (dom (AdBlocker_disable hidden_ad_browser)) 0 = Some (hideElement example_element)
   \<and> style (hideElement example_element) ''display'' = ''none''
   \<and> attributes (hideElement example_element) ''data-umbra-blocked'' = Some ''true''
   \<and> isConnected (hideElement example_element)"
  by (simp add: AdBlocker_disable_def notify_def hidden_ad_browser_def hideElement_def
        setAttribute_def set_style_def example_element_def)

section \<open>The navigation gate\<close>

lemma emit_beforeNavigate_undefined: "fst (emit_beforeNavigate js now d u) = Undefined"
  by (simp add: emit_beforeNavigate_def)

text \<open>
  \<open>navigate\<close> schedules the load of every URL that starts with a scheme, whatever the
  callbacks of \<open>beforeNavigate\<close> have returned.
\<close>

lemma navigate_follows:
  assumes "a \<noteq> []" and "startsWith a ''http://'' \<or> startsWith a ''https://''"
  shows "timers (navigate js now a u) =
           timers (snd (emit_beforeNavigate js now
                          (a, case currentTab u of Some t \<Rightarrow> t | None \<Rightarrow> 1) u))
           @ [(500, LoadUrl a (case currentTab u of Some t \<Rightarrow> t | None \<Rightarrow> 1))]"
  using assms
  by (auto simp: navigate_def Let_def emit_beforeNavigate_undefined setTimeout_def showLoading_def)

lemma loadUrl_sets_src:
  assumes "siteFrame (dom u) = Some f"
  shows "siteFrame (dom (loadUrl a tab u)) = Some (f\<lparr>src := a, frame_hidden := False\<rparr>)"
proof -
  have keep: "siteFrame (dom (snd (emit_navigate d v))) = siteFrame (dom v)" for d v
  proof -
    have "siteFrame (dom (foldl (\<lambda>v cb. case cb of UmbraBrowser_handleNavigation_cb \<Rightarrow>
              UmbraBrowser_handleNavigation d v) v cbs)) = siteFrame (dom v)" for cbs
      by (induction cbs arbitrary: v)
         (simp_all add: UmbraBrowser_handleNavigation_def split: navigate_callback.split prod.split)
    then show ?thesis by (simp add: emit_navigate_def)
  qed
  show ?thesis using assms by (simp add: loadUrl_def Let_def keep setTimeout_def)
qed

text \<open>
  C3, at the input \<open>https://g00gle.com/\<close>: \<open>checkUrl\<close> flags the URL as spoofing and the
  gate of the security manager returns \<open>false\<close>, but \<open>emit\<close> returns \<open>undefined\<close>, so
  \<open>navigate\<close> does not stop: it schedules the load, and the load puts the URL into the
  site frame and shows the frame.
\<close>

theorem flagged_navigation_is_followed:
  "checkUrl example_platform (securityManager example_browser) ''https://g00gle.com/''
     = Some (plain_threat ''spoofing'' ''google.com domain spoofing'')
   \<and> fst (SecurityManager_handleBeforeNavigation example_platform ''2026-11-01''
            (''https://g00gle.com/'', 1) example_browser) = False
   \<and> fst (UmbraBrowser_handleBeforeNavigation example_platform
            (''https://g00gle.com/'', 1) example_browser) = False
   \<and> fst (emit_beforeNavigate example_platform ''2026-11-01''
            (''https://g00gle.com/'', 1) example_browser) = Undefined
   \<and> timers (navigate example_platform ''2026-11-01'' ''https://g00gle.com/'' example_browser)
       = [(500, LoadUrl ''https://g00gle.com/'' 1)]
   \<and> siteFrame (dom (run_timer (LoadUrl ''https://g00gle.com/'' 1)
        (navigate example_platform ''2026-11-01'' ''https://g00gle.com/'' example_browser)))
       = Some \<lparr>src = ''https://g00gle.com/'', frame_hidden = False\<rparr>"
  by code_simp

lemma suspicious_and_xss_verdicts:
  "map_option type (checkUrl example_platform SecurityManager_new ''https://mobile-site.work/'')
     = Some ''suspicious''
   \<and> map_option type (checkUrl example_platform SecurityManager_new
        ''https://mobile-site.com/?q=%3Cscript%3E'') = Some ''xss''"
  by code_simp

section \<open>The spoofing stage against the specification\<close>

text \<open>
  C4, at the host name \<open>github.com\<close>: the stage substitutes in the host name, not in the
  legitimate domain, so it reports \<open>github.com\<close>, which lacks the letter \<open>l\<close>, as a spoof of
  \<open>google.com\<close>, and \<open>google.com\<close> as a spoof of \<open>facebook.com\<close>; neither is a variant of a
  legitimate domain other than itself. \<open>g00gle.com\<close> is a variant of \<open>google.com\<close> and the
  stage reports it, but \<open>checkUrl\<close> on \<open>https://g00gle.com\<close> returns the rule for
  executable files, whose pattern ends in \<open>.com\<close> at the end of the input.
\<close>

theorem spoofing_stage_flags_legitimate_domains:
  "checkDomainSpoofing ''github.com'' = Some (plain_threat ''spoofing'' ''google.com domain spoofing'')
   \<and> spec_spoofing ''github.com'' = False
   \<and> checkDomainSpoofing ''google.com'' = Some (plain_threat ''spoofing'' ''facebook.com domain spoofing'')
   \<and> spec_spoofing ''google.com'' = False
   \<and> checkDomainSpoofing ''g00gle.com'' = Some (plain_threat ''spoofing'' ''google.com domain spoofing'')
   \<and> spec_spoofing ''g00gle.com'' = True
   \<and> map_option type (checkUrl example_platform SecurityManager_new ''https://g00gle.com'')
       = Some ''malware''
   \<and> map_option description (checkUrl example_platform SecurityManager_new ''https://g00gle.com'')
       = Some ''download of an executable file''"
  by code_simp

text \<open>
  The direction that holds: every host name that is a spoof in the words of the
  specification is reported by the stage.
\<close>

lemma spec_variants_are_flagged_eval:
  "list_all (\<lambda>legit. list_all (\<lambda>h. h = legit \<or> checkDomainSpoofing h \<noteq> None) (spec_variants legit))
     legitimateDomains"
  by code_simp

lemma spec_spoofing_is_flagged: "spec_spoofing host \<Longrightarrow> checkDomainSpoofing host \<noteq> None"
  using spec_variants_are_flagged_eval
  unfolding spec_spoofing_def list_all_iff list_ex_iff
  by auto

section \<open>Patterns that keep state\<close>

text \<open>
  The equation of \<open>match_ends\<close> for a repetition mentions itself and is used by hand. The
  backtracking matcher finds a match exactly when the matcher by derivatives does.
\<close>

lemmas match_ends_Star = match_ends.simps(8)

declare match_ends.simps(8) [simp del]

lemma match_ends_length: "t \<in> set (match_ends r s) \<Longrightarrow> length t \<le> length s"
proof (induction r s arbitrary: t rule: match_ends.induct)
  case (6 r1 r2 s)
  from "6.prems" obtain u where u: "u \<in> set (match_ends r1 s)" and t: "t \<in> set (match_ends r2 u)"
    by auto
  from "6.IH"(1) [OF u] have "length u \<le> length s" .
  moreover from "6.IH"(2) [OF u t] have "length t \<le> length u" .
  ultimately show ?case by simp
next
  case (8 r s)
  show ?case
  proof (cases "t = s")
    case True
    then show ?thesis by simp
  next
    case False
    from "8.prems" have "t \<in> set (concat (map (\<lambda>t. if length t < length s
        then match_ends (Star r) t else []) (match_ends r s)) @ [s])"
      by (subst (asm) match_ends_Star) assumption
    with False obtain u where u: "u \<in> set (match_ends r s)" and lt: "length u < length s"
      and t: "t \<in> set (match_ends (Star r) u)"
      by (auto split: if_splits)
    from "8.IH"(2) [OF u lt t] have "length t \<le> length u" .
    with lt show ?thesis by simp
  qed
qed (auto split: list.splits if_splits)

lemma match_ends_Nil: "set (match_ends r []) = (if nullable True r then {[]} else {})"
proof (induction r)
  case (Star r)
  show ?case by (simp add: match_ends_Star [of r "[]"])
qed auto

lemma match_ends_Cons:
  "set (match_ends r (c # cs)) =
     (if nullable False r then {c # cs} else {}) \<union> set (match_ends (deriv c r) cs)"
proof (induction r)
  case (Star r)
  have short: "\<And>t. t \<in> set (match_ends (deriv c r) cs) \<Longrightarrow> length t < length (c # cs)"
    by (drule match_ends_length) simp
  have "set (match_ends (Star r) (c # cs)) =
          {c # cs} \<union> (\<Union>t \<in> set (match_ends r (c # cs)).
             if length t < length (c # cs) then set (match_ends (Star r) t) else {})"
    by (subst match_ends_Star) (auto split: if_splits)
  also have "\<dots> = {c # cs} \<union> (\<Union>t \<in> set (match_ends (deriv c r) cs). set (match_ends (Star r) t))"
    using short by (auto simp: Star split: if_splits)
  finally show ?case by simp
qed (auto split: if_splits)

lemma matches_at_match_ends: "matches_at r s \<longleftrightarrow> match_ends r s \<noteq> []"
proof (induction s arbitrary: r)
  case Nil
  have "match_ends r [] \<noteq> [] \<longleftrightarrow> set (match_ends r []) \<noteq> {}" by simp
  then show ?case by (simp only: match_ends_Nil matches_at.simps) simp
next
  case (Cons c cs)
  have "match_ends r (c # cs) \<noteq> [] \<longleftrightarrow> set (match_ends r (c # cs)) \<noteq> {}" by simp
  also have "\<dots> \<longleftrightarrow> nullable False r \<or> match_ends (deriv c r) cs \<noteq> []"
    by (simp only: match_ends_Cons) auto
  finally show ?case using Cons by simp
qed

lemma search_find_end: "search r s \<longleftrightarrow> find_end False r s \<noteq> None"
  by (induction s) (auto simp: matches_at_match_ends split: list.splits)

lemma RegExp_test_no_state:
  "global p = False \<Longrightarrow> sticky p = False \<Longrightarrow> RegExp_test p s = (test (RegExp.truncate p) s, p)"
  by (simp add: RegExp_test_def)

lemma checkUrl_rules'_no_state:
  assumes "list_all keeps_no_state rules"
  shows "checkUrl_rules' rules fullUrl = (checkUrl_rules (map threat_of rules) fullUrl, rules)"
  using assms
proof (induction rules)
  case Nil
  then show ?case by simp
next
  case (Cons rule rest)
  show ?case
  proof (cases "pattern' rule")
    case None
    then show ?thesis by (simp add: threat_of_def)
  next
    case (Some p)
    with Cons.prems have p: "global p = False" "sticky p = False"
      by (simp_all add: keeps_no_state_def)
    have same: "rule\<lparr>pattern' := Some p\<rparr> = rule" using Some by simp
    from Cons.prems have "list_all keeps_no_state rest" by simp
    from Cons.IH [OF this] show ?thesis
      using Some by (simp add: RegExp_test_no_state [OF p] same Let_def threat_of_def)
  qed
qed

lemma checkUrl'_no_state:
  assumes "list_all keeps_no_state (securityRules' sm)"
  shows "checkUrl' js sm u = (checkUrl js (stateless_view sm) u, sm)"
proof -
  have same: "sm\<lparr>securityRules' := securityRules' sm\<rparr> = sm" by simp
  show ?thesis
    by (simp add: checkUrl'_def checkUrl_def checkUrl_try_def Let_def
          checkUrl_rules'_no_state [OF assms] same stateless_view_def
        split: option.split sum.split)
qed

lemma keeps_no_state_rule_object_of: "keeps_no_state (rule_object_of t)"
  by (simp add: keeps_no_state_def rule_object_of_def RegExp_object_of_def split: option.split)

lemma stateful_of_keeps_no_state: "list_all keeps_no_state (securityRules' (stateful_of sm))"
  by (simp add: stateful_of_def list_all_iff keeps_no_state_rule_object_of)

lemma threat_of_rule_object_of: "threat_of (rule_object_of t) = t"
  by (cases "pattern t")
     (simp_all add: threat_of_def rule_object_of_def RegExp_object_of_def RegExp.truncate_def)

lemma stateless_view_stateful_of: "stateless_view (stateful_of sm) = sm"
  by (simp add: stateless_view_def stateful_of_def comp_def threat_of_rule_object_of)

text \<open>
  C9, as amended: when no rule of the security manager has a pattern with the flag \<open>g\<close>
  or \<open>y\<close>, \<open>checkUrl\<close> leaves the manager exactly as it was, the \<open>lastIndex\<close> of every
  pattern included, so a second call for the same URL returns the identical verdict; the
  verdict is the one of the first model. Every manager of the first model is of this kind,
  as are all rules that the repository builds. A rule with the flag \<open>g\<close> or \<open>y\<close>, which
  \<open>addSecurityRule\<close> accepts, makes \<open>test\<close> depend on \<open>lastIndex\<close>, and two calls in a row
  can then return different verdicts.
\<close>

theorem checkUrl_twice_same_verdict:
  assumes "list_all keeps_no_state (securityRules' sm)"
  shows "snd (checkUrl' js sm u) = sm
         \<and> checkUrl' js (snd (checkUrl' js sm u)) u = checkUrl' js sm u
         \<and> fst (checkUrl' js sm u) = checkUrl js (stateless_view sm) u
         \<and> list_all keeps_no_state (securityRules' (stateful_of sm0))
         \<and> checkUrl' js (stateful_of sm0) u = (checkUrl js sm0 u, stateful_of sm0)"
  using checkUrl'_no_state [OF assms] checkUrl'_no_state [OF stateful_of_keeps_no_state]
  by (simp add: stateful_of_keeps_no_state stateless_view_stateful_of)

lemma g00gle_verdict:
  "checkUrl example_platform SecurityManager_new ''https://g00gle.com/''
     = Some (plain_threat ''spoofing'' ''google.com domain spoofing'')"
  by code_simp

theorem checkUrl_twice_same_verdict_witness:
  "list_all keeps_no_state (securityRules' (stateful_of SecurityManager_new))
   \<and> checkUrl' example_platform (stateful_of SecurityManager_new) ''https://g00gle.com/''
       = (Some (plain_threat ''spoofing'' ''google.com domain spoofing''),
          stateful_of SecurityManager_new)
   \<and> checkUrl' example_platform
        (snd (checkUrl' example_platform (stateful_of SecurityManager_new) ''https://g00gle.com/''))
        ''https://g00gle.com/''
       = (Some (plain_threat ''spoofing'' ''google.com domain spoofing''),
          stateful_of SecurityManager_new)"
proof -
  have h: "list_all keeps_no_state (securityRules' (stateful_of SecurityManager_new))"
    by (rule stateful_of_keeps_no_state)
  from checkUrl_twice_same_verdict [OF h, of example_platform "''https://g00gle.com/''"
      SecurityManager_new]
  show ?thesis using g00gle_verdict h by simp
qed

text \<open>
  The claim as stated fails with the rule \<open>/evil/g\<close>: the first call for
  \<open>https://evil-mobile.example/\<close> returns the rule and leaves its \<open>lastIndex\<close> at 12, the
  second call, with the database and the rules otherwise as they were, returns \<open>null\<close>.
\<close>

theorem global_rule_changes_second_verdict:
  "map_option type
     (fst (checkUrl' example_platform manager_with_global_rule ''https://evil-mobile.example/''))
     = Some ''custom''
   \<and> fst (checkUrl' example_platform
        (snd (checkUrl' example_platform manager_with_global_rule ''https://evil-mobile.example/''))
        ''https://evil-mobile.example/'') = None
   \<and> map threat_of (securityRules'
        (snd (checkUrl' example_platform manager_with_global_rule ''https://evil-mobile.example/'')))
     = map threat_of (securityRules' manager_with_global_rule)
   \<and> map_option lastIndex (pattern' (last (securityRules'
        (snd (checkUrl' example_platform manager_with_global_rule ''https://evil-mobile.example/'')))))
     = Some 12"
  by code_simp

text \<open>From \<open>lastIndex\<close> 0 a pattern with the flag \<open>g\<close> tests as the pattern without it.\<close>

lemma RegExp_test_global_from_start:
  assumes "global p" and "sticky p = False" and "lastIndex p = 0"
  shows "fst (RegExp_test p s) = test (RegExp.truncate p) s"
  using assms
  by (auto simp: RegExp_test_def test_def Let_def search_find_end RegExp.truncate_def
           split: option.split)

end
